theory Spec2Isabelle
  imports Complex_Main "HOL-Library.Sublist"
begin

section \<open>Python values shared by the scripts\<close>

text \<open>
  The scripts of the study are Python programs.  Python integers are unbounded and are
  modelled by \<open>int\<close>; strings are modelled by \<open>string\<close>, a list of 8-bit characters
  read as the code points below 256 (Latin-1); an exception is a value of \<open>pyerr\<close>
  returned on the left of a sum, \<open>OtherError\<close> standing for the exceptions that the
  scripts do not tell apart.  The conversions between integers and decimal text are
  those of CPython with its default limit of 4300 digits, which no script changes.
\<close>

datatype pyerr = ValueError | TypeError | AttributeError | OtherError

subsection \<open>Characters and decimal numerals\<close>

definition is_digit :: "char \<Rightarrow> bool" where
  "is_digit c = (48 \<le> (of_char c :: nat) \<and> (of_char c :: nat) \<le> 57)"

definition is_space :: "char \<Rightarrow> bool" where
  \<comment> \<open>\<open>str.isspace\<close> on one character: tab to carriage return, the four separators,
      the blank, and the two Latin-1 spaces.\<close>
  "is_space c = ((of_char c :: nat) \<in> {9, 10, 11, 12, 13, 28, 29, 30, 31, 32, 133, 160})"

definition py_isdigit :: "char \<Rightarrow> bool" where
  \<comment> \<open>\<open>str.isdigit\<close> on one character: the decimal digits and the superscripts one,
      two and three, which \<open>int\<close> does not read\<close>
  "py_isdigit c = (is_digit c \<or> (of_char c :: nat) \<in> {178, 179, 185})"

definition digit_val :: "char \<Rightarrow> int" where
  "digit_val c = int (of_char c) - 48"

definition digit_chr :: "nat \<Rightarrow> char" where
  "digit_chr d = char_of (48 + d)"

definition dec_val :: "string \<Rightarrow> int" where
  \<comment> \<open>the number a string of decimal digits denotes\<close>
  "dec_val ds = foldl (\<lambda>a c. 10 * a + digit_val c) 0 ds"

fun str_nat :: "nat \<Rightarrow> string" where
  "str_nat n = (if n < 10 then [digit_chr n] else str_nat (n div 10) @ [digit_chr (n mod 10)])"

declare str_nat.simps [simp del]

definition dec_str :: "int \<Rightarrow> string" where
  \<comment> \<open>the decimal text of an integer\<close>
  "dec_str i = (if i < 0 then CHR ''-'' # str_nat (nat (- i)) else str_nat (nat i))"

definition int_max_str_digits :: nat where
  \<comment> \<open>\<open>sys.get_int_max_str_digits()\<close>, the default\<close>
  "int_max_str_digits = 4300"

definition fits :: "int \<Rightarrow> bool" where
  \<comment> \<open>the integer has no more decimal digits than the limit allows\<close>
  "fits i = (length (str_nat (nat \<bar>i\<bar>)) \<le> int_max_str_digits)"

definition py_str :: "int \<Rightarrow> pyerr + string" where
  \<comment> \<open>\<open>str(i)\<close>, also what an f-string prints for an integer: ValueError for an
      integer of more digits than the limit\<close>
  "py_str i = (if fits i then Inr (dec_str i) else Inl ValueError)"

definition int_space :: "char \<Rightarrow> bool" where
  \<comment> \<open>the white space that \<open>int\<close> accepts around a numeral: tab to carriage return,
      the blank, and the two Latin-1 spaces, but not the four separators\<close>
  "int_space c = ((of_char c :: nat) \<in> {9, 10, 11, 12, 13, 32, 133, 160})"

definition strip :: "string \<Rightarrow> string" where
  \<comment> \<open>\<open>s.strip()\<close>\<close>
  "strip s = rev (dropWhile is_space (rev (dropWhile is_space s)))"

definition strip_chars :: "string \<Rightarrow> string \<Rightarrow> string" where
  \<comment> \<open>\<open>s.strip(chars)\<close>\<close>
  "strip_chars chars s =
     rev (dropWhile (\<lambda>c. c \<in> set chars) (rev (dropWhile (\<lambda>c. c \<in> set chars) s)))"

fun in_str :: "string \<Rightarrow> string \<Rightarrow> bool" where
  \<comment> \<open>\<open>sub in s\<close> on strings\<close>
  "in_str sub [] = (sub = [])"
| "in_str sub (c # cs) = (prefix sub (c # cs) \<or> in_str sub cs)"

fun split_on :: "char \<Rightarrow> string \<Rightarrow> string list" where
  \<comment> \<open>\<open>s.split(sep)\<close> for a one-character separator: never an empty list\<close>
  "split_on sep [] = [[]]"
| "split_on sep (c # cs) =
     (if c = sep then [] # split_on sep cs
      else (case split_on sep cs of [] \<Rightarrow> [[c]] | w # ws \<Rightarrow> (c # w) # ws))"

fun digits_ok :: "bool \<Rightarrow> string \<Rightarrow> bool" where
  \<comment> \<open>the digit part of an integer literal: digits, single underscores only between
      digits; the flag says that the previous character was a digit\<close>
  "digits_ok prev [] = prev"
| "digits_ok prev (c # cs) =
     (if is_digit c then digits_ok True cs
      else if c = CHR ''_'' then prev \<and> cs \<noteq> [] \<and> is_digit (hd cs) \<and> digits_ok False cs
      else False)"

definition py_int :: "string \<Rightarrow> pyerr + int" where
  \<comment> \<open>\<open>int(s)\<close> for a string in base ten: surrounding white space, an optional sign,
      digits with single underscores between them, and no more digits than the limit;
      anything else raises ValueError\<close>
  "py_int s =
     (let t = rev (dropWhile int_space (rev (dropWhile int_space s)));
          neg = (t \<noteq> [] \<and> hd t = CHR ''-'');
          body = (if t \<noteq> [] \<and> (hd t = CHR ''-'' \<or> hd t = CHR ''+'') then tl t else t);
          digits = filter (\<lambda>c. c \<noteq> CHR ''_'') body
      in if digits_ok False body \<and> length digits \<le> int_max_str_digits
         then Inr ((if neg then - 1 else 1) * dec_val digits)
         else Inl ValueError)"

section \<open>Running git\<close>

text \<open>
  A git command is its argument list.  What git answers in a repository is the
  environment of a script: a table from argument lists to the completed process, or to
  the message of the exception that \<open>subprocess.run\<close> raises when the process cannot be
  started; a command that the table does not list cannot be started.
\<close>

record completed =
  returncode :: int
  stdout :: string
  stderr :: string

type_synonym git_env = "(string list \<times> (string + completed)) list"

datatype exn =
    CalledProcessError "string list" int string bool
      \<comment> \<open>command, exit status, captured stderr, and whether it was captured as text\<close>
  | Exception string
      \<comment> \<open>any other exception, with its message\<close>

definition subprocess_run :: "git_env \<Rightarrow> string list \<Rightarrow> bool \<Rightarrow> bool \<Rightarrow> exn + completed" where
  \<comment> \<open>\<open>subprocess.run(argv, check=check, capture_output=True, text=text_mode)\<close>\<close>
  "subprocess_run env argv check text_mode =
     (case map_of env argv of
        None \<Rightarrow> Inl (Exception ''cannot start the process'')
      | Some (Inl msg) \<Rightarrow> Inl (Exception msg)
      | Some (Inr c) \<Rightarrow>
          if check \<and> returncode c \<noteq> 0
          then Inl (CalledProcessError argv (returncode c) (stderr c) text_mode)
          else Inr c)"


section \<open>SonarResultsGenerator.py: technical-debt durations\<close>

definition match_here :: "string \<Rightarrow> string \<Rightarrow> string option" where
  \<comment> \<open>the pattern \<open>(\d+)suf\<close> tried at the start of \<open>s\<close>: the greedy \<open>\d+\<close> first takes
      every leading digit, then gives digits back one at a time until \<open>suf\<close> follows;
      the result is group 1\<close>
  "match_here suf s =
     (let n = length (takeWhile is_digit s)
      in case filter (\<lambda>k. prefix suf (drop k s)) (rev [1..<Suc n]) of
           [] \<Rightarrow> None
         | k # _ \<Rightarrow> Some (take k s))"

fun re_search_num :: "string \<Rightarrow> string \<Rightarrow> string option" where
  \<comment> \<open>\<open>re.search(r'(\d+)suf', s)\<close>: the match at the leftmost position that has one\<close>
  "re_search_num suf [] = match_here suf []"
| "re_search_num suf (c # cs) =
     (case match_here suf (c # cs) of
        Some g \<Rightarrow> Some g
      | None \<Rightarrow> re_search_num suf cs)"

definition parse_component :: "string \<Rightarrow> string \<Rightarrow> pyerr + int" where
  \<comment> \<open>\<open>if suf in debt_str: match = re.search(...); if match: x = int(match.group(1))\<close>,
      with \<open>x = 0\<close> before\<close>
  "parse_component suf debt_str =
     (if in_str suf debt_str
      then (case re_search_num suf debt_str of
              Some g \<Rightarrow> py_int g
            | None \<Rightarrow> Inr 0)
      else Inr 0)"

definition parse_time :: "string \<Rightarrow> pyerr + int" where
  "parse_time debt_str =
     (if debt_str = [] then Inr 0
      else (case parse_component ''h'' debt_str of
              Inl e \<Rightarrow> Inl e
            | Inr hours \<Rightarrow>
                (case parse_component ''min'' debt_str of
                   Inl e \<Rightarrow> Inl e
                 | Inr minutes \<Rightarrow> Inr (hours * 60 + minutes))))"

definition format_time :: "int \<Rightarrow> pyerr + string" where
  \<comment> \<open>the f-strings print the hours first: either \<open>str\<close> may raise\<close>
  "format_time total_minutes =
     (if total_minutes = 0 then Inr ''0min''
      else (let hours = total_minutes div 60;
                minutes = total_minutes mod 60
            in if hours > 0 \<and> minutes > 0
               then (case py_str hours of
                       Inl e \<Rightarrow> Inl e
                     | Inr h \<Rightarrow>
                         (case py_str minutes of
                            Inl e \<Rightarrow> Inl e
                          | Inr m \<Rightarrow> Inr (h @ ''h'' @ m @ ''min'')))
               else if hours > 0
               then (case py_str hours of Inl e \<Rightarrow> Inl e | Inr h \<Rightarrow> Inr (h @ ''h''))
               else (case py_str minutes of Inl e \<Rightarrow> Inl e | Inr m \<Rightarrow> Inr (m @ ''min''))))"

text \<open>
  The reading of a duration in the words of the specification: the hour component is the
  first maximal run of digits that is directly followed by \<open>h\<close>, the minute component
  the first one directly followed by \<open>min\<close>; a component that is absent counts 0,
  and a component is too long when its run has more digits than \<open>int\<close> converts.
\<close>

function first_run_before :: "string \<Rightarrow> string \<Rightarrow> string option" where
  "first_run_before suf [] = None"
| "first_run_before suf (c # cs) =
     (if is_digit c
      then (if prefix suf (dropWhile is_digit cs) then Some (c # takeWhile is_digit cs)
            else first_run_before suf (dropWhile is_digit cs))
      else first_run_before suf cs)"
  by pat_completeness auto
termination
  by (relation "measure (\<lambda>(suf, s). length s)") (auto simp: length_dropWhile_le less_Suc_eq_le)

definition component :: "string \<Rightarrow> string \<Rightarrow> int" where
  "component suf s = (case first_run_before suf s of None \<Rightarrow> 0 | Some ds \<Rightarrow> dec_val ds)"

definition is_number :: "string \<Rightarrow> bool" where
  "is_number ds = (ds \<noteq> [] \<and> list_all is_digit ds)"

definition too_long :: "string \<Rightarrow> string \<Rightarrow> bool" where
  "too_long suf s =
     (case first_run_before suf s of None \<Rightarrow> False | Some ds \<Rightarrow> int_max_str_digits < length ds)"

section \<open>ow.py: the Dependency-Check report\<close>

text \<open>
  \<open>json.load\<close> yields \<open>None\<close>, booleans, numbers, strings, lists and dictionaries.
  Numbers are modelled by rationals (finite values; the comparisons of the script are
  exact on them), a dictionary by the list of its items, keys distinct.
\<close>

datatype json =
    JNull
  | JBool bool
  | JNum rat
  | JStr string
  | JArr "json list"
  | JObj "(string \<times> json) list"

fun truthy :: "json \<Rightarrow> bool" where
  \<comment> \<open>\<open>bool(x)\<close>, what \<open>if x\<close> and \<open>if not x\<close> test\<close>
  "truthy JNull = False"
| "truthy (JBool b) = b"
| "truthy (JNum r) = (r \<noteq> 0)"
| "truthy (JStr s) = (s \<noteq> [])"
| "truthy (JArr xs) = (xs \<noteq> [])"
| "truthy (JObj kvs) = (kvs \<noteq> [])"

fun py_get :: "json \<Rightarrow> string \<Rightarrow> json \<Rightarrow> pyerr + json" where
  \<comment> \<open>\<open>x.get(key, default)\<close>: only a dictionary has the method\<close>
  "py_get (JObj kvs) key dflt = Inr (case map_of kvs key of Some v \<Rightarrow> v | None \<Rightarrow> dflt)"
| "py_get _ key dflt = Inl AttributeError"

fun py_iter :: "json \<Rightarrow> pyerr + json list" where
  \<comment> \<open>the items a \<open>for\<close> loop or \<open>join\<close> draws from a value: the elements of a list,
      the characters of a string, the keys of a dictionary\<close>
  "py_iter (JArr xs) = Inr xs"
| "py_iter (JStr s) = Inr (map (\<lambda>c. JStr [c]) s)"
| "py_iter (JObj kvs) = Inr (map (\<lambda>kv. JStr (fst kv)) kvs)"
| "py_iter _ = Inl TypeError"

fun py_num :: "json \<Rightarrow> pyerr + rat" where
  \<comment> \<open>the operand of an ordering comparison with a float: a number, or a boolean
      counting 1 or 0\<close>
  "py_num (JNum r) = Inr r"
| "py_num (JBool b) = Inr (if b then 1 else 0)"
| "py_num _ = Inl TypeError"

fun join_str :: "string \<Rightarrow> string list \<Rightarrow> string" where
  "join_str sep [] = []"
| "join_str sep [x] = x"
| "join_str sep (x # y # ys) = x @ sep @ join_str sep (y # ys)"

fun the_strs :: "json list \<Rightarrow> pyerr + string list" where
  \<comment> \<open>\<open>join\<close> accepts strings only\<close>
  "the_strs [] = Inr []"
| "the_strs (JStr s # xs) = (case the_strs xs of Inl e \<Rightarrow> Inl e | Inr ss \<Rightarrow> Inr (s # ss))"
| "the_strs (_ # xs) = Inl TypeError"

definition py_join :: "string \<Rightarrow> json \<Rightarrow> pyerr + string" where
  \<comment> \<open>\<open>sep.join(x)\<close>\<close>
  "py_join sep x =
     (case py_iter x of
        Inl e \<Rightarrow> Inl e
      | Inr items \<Rightarrow> (case the_strs items of Inl e \<Rightarrow> Inl e | Inr ss \<Rightarrow> Inr (join_str sep ss)))"

datatype severity = UNKNOWN | LOW | MEDIUM | HIGH | CRITICAL

record counters =
  critical_count :: int
  high_count :: int
  medium_count :: int
  low_count :: int
  total_count :: int

record finding =
  projectName :: string
  packageName :: json
  vulnerabilityId :: json
  packagePath :: json
  severity :: severity
  cvssScore :: json
  cwe :: string
  description :: json
  references :: string
  published :: json

record summary_row =
  s_projectName :: string
  criticalSeverityCount :: int
  highSeverityCount :: int
  mediumSeverityCount :: int
  lowSeverityCount :: int
  totalVulnerabilities :: int

definition cvss_score_of :: "json \<Rightarrow> pyerr + json" where
  \<comment> \<open>lines 156 to 160: CVSS v3 base score if the key is there, else the v2 score,
      else 0; the default argument is evaluated in every case\<close>
  "cvss_score_of vuln =
     (case py_get vuln ''cvssv3'' (JObj []) of
        Inl e \<Rightarrow> Inl e
      | Inr cvss_v3 \<Rightarrow>
          (case py_get vuln ''cvssv2'' (JObj []) of
             Inl e \<Rightarrow> Inl e
           | Inr cvss_v2 \<Rightarrow>
               (case cvss_v3 of
                  JObj _ \<Rightarrow>
                    (case py_get cvss_v2 ''score'' (JNum 0) of
                       Inl e \<Rightarrow> Inl e
                     | Inr dflt \<Rightarrow> py_get cvss_v3 ''baseScore'' dflt)
                | _ \<Rightarrow> Inl AttributeError)))"

definition classify :: "counters \<Rightarrow> rat \<Rightarrow> severity \<times> counters" where
  \<comment> \<open>lines 163 to 178: the severity of a score and the counters it bumps\<close>
  "classify c cvss_score =
     (let (sev, c1) =
            (if cvss_score \<ge> 9 then (CRITICAL, c\<lparr>critical_count := critical_count c + 1\<rparr>)
             else if cvss_score \<ge> 7 then (HIGH, c\<lparr>high_count := high_count c + 1\<rparr>)
             else if cvss_score \<ge> 4 then (MEDIUM, c\<lparr>medium_count := medium_count c + 1\<rparr>)
             else if cvss_score > 0 then (LOW, c\<lparr>low_count := low_count c + 1\<rparr>)
             else (UNKNOWN, c))
      in (sev, if sev \<noteq> UNKNOWN then c1\<lparr>total_count := total_count c1 + 1\<rparr> else c1))"

fun ref_urls :: "json list \<Rightarrow> pyerr + json list" where
  \<comment> \<open>\<open>[ref.get('url', '') for ref in ...]\<close>\<close>
  "ref_urls [] = Inr []"
| "ref_urls (r # rs) =
     (case py_get r ''url'' (JStr []) of
        Inl e \<Rightarrow> Inl e
      | Inr u \<Rightarrow> (case ref_urls rs of Inl e \<Rightarrow> Inl e | Inr us \<Rightarrow> Inr (u # us)))"

definition detail_row ::
  "string \<Rightarrow> json \<Rightarrow> json \<Rightarrow> severity \<Rightarrow> json \<Rightarrow> json \<Rightarrow> pyerr + finding" where
  \<comment> \<open>lines 181 to 192: the dictionary of one finding, its values computed in order\<close>
  "detail_row project_name dependency_name dependency_path sev cvss_score vuln =
     (case py_get vuln ''name'' (JStr ''N/A'') of
        Inl e \<Rightarrow> Inl e
      | Inr vid \<Rightarrow>
     (case py_get vuln ''cwes'' (JArr []) of
        Inl e \<Rightarrow> Inl e
      | Inr cwes \<Rightarrow>
     (case py_join '', '' cwes of
        Inl e \<Rightarrow> Inl e
      | Inr cwe_str \<Rightarrow>
     (case py_get vuln ''description'' (JStr ''N/A'') of
        Inl e \<Rightarrow> Inl e
      | Inr descr \<Rightarrow>
     (case py_get vuln ''references'' (JArr []) of
        Inl e \<Rightarrow> Inl e
      | Inr refs \<Rightarrow>
     (case py_iter refs of
        Inl e \<Rightarrow> Inl e
      | Inr ref_list \<Rightarrow>
     (case ref_urls ref_list of
        Inl e \<Rightarrow> Inl e
      | Inr urls \<Rightarrow>
     (case py_join '', '' (JArr urls) of
        Inl e \<Rightarrow> Inl e
      | Inr ref_str \<Rightarrow>
     (case py_get vuln ''published'' (JStr ''N/A'') of
        Inl e \<Rightarrow> Inl e
      | Inr pub \<Rightarrow>
          Inr \<lparr>projectName = project_name, packageName = dependency_name,
               vulnerabilityId = vid, packagePath = dependency_path, severity = sev,
               cvssScore = cvss_score, cwe = cwe_str, description = descr,
               references = ref_str, published = pub\<rparr>)))))))))"

text \<open>
  The state of the loops is the counters and \<open>detailed_data\<close>.  A step returns the
  state it leaves and the exception it raised, if any: what was counted or appended
  before an exception stays.
\<close>

type_synonym scan_state = "counters \<times> finding list"

definition process_vuln ::
  "string \<Rightarrow> json \<Rightarrow> json \<Rightarrow> scan_state \<Rightarrow> json \<Rightarrow> scan_state \<times> pyerr option" where
  \<comment> \<open>the body of \<open>for vuln in vulnerabilities\<close>\<close>
  "process_vuln project_name dependency_name dependency_path st vuln =
     (case cvss_score_of vuln of
        Inl e \<Rightarrow> (st, Some e)
      | Inr cvss_score \<Rightarrow>
          (case py_num cvss_score of
             Inl e \<Rightarrow> (st, Some e)
           | Inr s \<Rightarrow>
               (let (sev, c) = classify (fst st) s
                in case detail_row project_name dependency_name dependency_path sev cvss_score vuln of
                     Inl e \<Rightarrow> ((c, snd st), Some e)
                   | Inr row \<Rightarrow> ((c, snd st @ [row]), None))))"

fun process_vulns ::
  "string \<Rightarrow> json \<Rightarrow> json \<Rightarrow> scan_state \<Rightarrow> json list \<Rightarrow> scan_state \<times> pyerr option" where
  "process_vulns project_name dn dp st [] = (st, None)"
| "process_vulns project_name dn dp st (vuln # vulns) =
     (case process_vuln project_name dn dp st vuln of
        (st1, Some e) \<Rightarrow> (st1, Some e)
      | (st1, None) \<Rightarrow> process_vulns project_name dn dp st1 vulns)"

definition process_dependency :: "string \<Rightarrow> scan_state \<Rightarrow> json \<Rightarrow> scan_state \<times> pyerr option" where
  \<comment> \<open>the body of \<open>for dependency in dependencies\<close>\<close>
  "process_dependency project_name st dependency =
     (case py_get dependency ''vulnerabilities'' (JArr []) of
        Inl e \<Rightarrow> (st, Some e)
      | Inr vulnerabilities \<Rightarrow>
          if \<not> truthy vulnerabilities then (st, None)
          else
            (case py_get dependency ''fileName'' (JStr ''N/A'') of
               Inl e \<Rightarrow> (st, Some e)
             | Inr dependency_name \<Rightarrow>
            (case py_get dependency ''filePath'' (JStr ''N/A'') of
               Inl e \<Rightarrow> (st, Some e)
             | Inr dependency_path \<Rightarrow>
            (case py_iter vulnerabilities of
               Inl e \<Rightarrow> (st, Some e)
             | Inr vulns \<Rightarrow>
                 process_vulns project_name dependency_name dependency_path st vulns))))"

fun process_dependencies :: "string \<Rightarrow> scan_state \<Rightarrow> json list \<Rightarrow> scan_state \<times> pyerr option" where
  "process_dependencies project_name st [] = (st, None)"
| "process_dependencies project_name st (d # ds) =
     (case process_dependency project_name st d of
        (st1, Some e) \<Rightarrow> (st1, Some e)
      | (st1, None) \<Rightarrow> process_dependencies project_name st1 ds)"

definition zero_counters :: counters where
  "zero_counters = \<lparr>critical_count = 0, high_count = 0, medium_count = 0, low_count = 0,
                     total_count = 0\<rparr>"

definition scan_body :: "string \<Rightarrow> json \<Rightarrow> finding list \<Rightarrow> scan_state \<times> pyerr option" where
  \<comment> \<open>the \<open>try\<close> block of \<open>process_scan_results\<close>, from zeroed counters\<close>
  "scan_body project_name scan_result detailed_data =
     (case py_get scan_result ''dependencies'' (JArr []) of
        Inl e \<Rightarrow> ((zero_counters, detailed_data), Some e)
      | Inr dependencies \<Rightarrow>
          (case py_iter dependencies of
             Inl e \<Rightarrow> ((zero_counters, detailed_data), Some e)
           | Inr deps \<Rightarrow> process_dependencies project_name (zero_counters, detailed_data) deps))"

definition summary_of :: "string \<Rightarrow> counters \<Rightarrow> summary_row" where
  "summary_of project_name c =
     \<lparr>s_projectName = project_name, criticalSeverityCount = critical_count c,
      highSeverityCount = high_count c, mediumSeverityCount = medium_count c,
      lowSeverityCount = low_count c, totalVulnerabilities = total_count c\<rparr>"

definition process_scan_results ::
  "string \<Rightarrow> json \<Rightarrow> summary_row list \<Rightarrow> finding list \<Rightarrow> summary_row list \<times> finding list" where
  \<comment> \<open>returns \<open>summary_data\<close> and \<open>detailed_data\<close> as the call leaves them; the exception
      of the \<open>try\<close> block is logged and dropped\<close>
  "process_scan_results project_name scan_result summary_data detailed_data =
     (if \<not> truthy scan_result
      then (summary_data @ [summary_of project_name zero_counters], detailed_data)
      else (case scan_body project_name scan_result detailed_data of
              ((c, detailed), _) \<Rightarrow> (summary_data @ [summary_of project_name c], detailed)))"

text \<open>
  Predicates of the specification: the exception that the \<open>try\<close> block of a call
  raised, the findings that a summary counts, and the invariant of the counters.
\<close>

definition scan_error :: "string \<Rightarrow> json \<Rightarrow> finding list \<Rightarrow> pyerr option" where
  "scan_error project_name scan_result detailed_data =
     (if \<not> truthy scan_result then None
      else snd (scan_body project_name scan_result detailed_data))"

definition counted :: "finding list \<Rightarrow> int" where
  \<comment> \<open>the findings whose severity is not UNKNOWN\<close>
  "counted rows = int (length (filter (\<lambda>r. severity r \<noteq> UNKNOWN) rows))"

definition sum_ok :: "counters \<Rightarrow> bool" where
  "sum_ok c =
     (0 \<le> critical_count c \<and> 0 \<le> high_count c \<and> 0 \<le> medium_count c \<and> 0 \<le> low_count c
      \<and> critical_count c + high_count c + medium_count c + low_count c = total_count c)"

definition step_ok :: "string \<Rightarrow> scan_state \<Rightarrow> scan_state \<times> pyerr option \<Rightarrow> bool" where
  \<comment> \<open>what a part of the loops does to the state: it keeps the invariant, appends
      findings of the project, and raises the total by the number of counted findings
      it appended, or by one more when an exception came between the count and the
      append\<close>
  "step_ok project_name st res =
     (case res of
        ((c', d'), r) \<Rightarrow>
          (sum_ok (fst st) \<longrightarrow> sum_ok c')
          \<and> (\<exists>new. d' = snd st @ new
                \<and> list_all (\<lambda>f. projectName f = project_name) new
                \<and> counted new \<le> total_count c' - total_count (fst st)
                \<and> total_count c' - total_count (fst st) \<le> counted new + 1
                \<and> (r = None \<longrightarrow> total_count c' - total_count (fst st) = counted new)))"


section \<open>rq2script.py: commit statistics of a folder of projects\<close>

text \<open>
  With each entry of the projects folder comes what git answers there and whether the
  measurements are done within \<open>TIMEOUT\<close> (\<open>gitdir\<close>).  The averages are Python floats,
  modelled by rationals.  Writing a file is taken to succeed.
\<close>

record git_project =
  replies :: git_env
  within_timeout :: bool

record dir_entry =
  entry_name :: string
  is_dir :: bool
  has_git :: bool
  gitdir :: git_project

record project_info =
  project :: string
  avg_commits_per_day :: rat
  avg_lines_added_per_commit :: rat
  avg_lines_deleted_per_commit :: rat

definition since_date :: string where
  "since_date = ''2022-01-01''"

definition until_date :: string where
  "until_date = ''2025-01-01''"

definition total_days :: int where
  \<comment> \<open>\<open>(end - start).days + 1\<close> for the two dates: 365 + 365 + 366 days, and one\<close>
  "total_days = 1097"

definition commit_frequency_cmd :: "string list" where
  "commit_frequency_cmd =
     [''git'', ''log'', ''--since='' @ since_date, ''--until='' @ until_date,
      ''--pretty=format:%ad'', ''--date=short'']"

definition code_churn_cmd :: "string list" where
  "code_churn_cmd =
     [''git'', ''log'', ''--numstat'', ''--pretty=format:%H'', ''--since='' @ since_date,
      ''--until='' @ until_date]"

definition get_commit_frequency :: "git_env \<Rightarrow> exn + rat" where
  \<comment> \<open>\<open>except subprocess.CalledProcessError: return 0\<close>; another exception goes on\<close>
  "get_commit_frequency env =
     (case subprocess_run env commit_frequency_cmd True True of
        Inl (CalledProcessError argv rc err text_mode) \<Rightarrow> Inr 0
      | Inl (Exception msg) \<Rightarrow> Inl (Exception msg)
      | Inr result \<Rightarrow>
          (let dates = split_on (CHR 0x0A) (strip (stdout result));
               total_commits = int (length (filter (\<lambda>date. strip date \<noteq> []) dates))
           in Inr (if total_days > 0 then of_int total_commits / of_int total_days else 0)))"

definition is_commit_hash :: "string \<Rightarrow> bool" where
  \<comment> \<open>\<open>re.match(r"^[0-9a-f]{40}$", line)\<close> on a line without a line break\<close>
  "is_commit_hash line =
     (length line = 40 \<and> list_all (\<lambda>c. is_digit c \<or> c \<in> set ''abcdef'') line)"

definition count_of :: "string \<Rightarrow> exn + int" where
  \<comment> \<open>\<open>int(part) if part.isdigit() else 0\<close>\<close>
  "count_of part =
     (if part \<noteq> [] \<and> list_all py_isdigit part
      then (case py_int part of Inl e \<Rightarrow> Inl (Exception ''ValueError'') | Inr n \<Rightarrow> Inr n)
      else Inr 0)"

fun churn_lines ::
  "string list \<Rightarrow> int \<times> int \<times> int \<times> string option \<Rightarrow> exn + int \<times> int \<times> int \<times> string option" where
  \<comment> \<open>the loop over the lines, on \<open>total_additions\<close>, \<open>total_deletions\<close>,
      \<open>total_commits\<close> and \<open>current_commit\<close>\<close>
  "churn_lines [] acc = Inr acc"
| "churn_lines (raw # rest) (total_additions, total_deletions, total_commits, current_commit) =
     (let line = strip raw
      in if is_commit_hash line
         then churn_lines rest (total_additions, total_deletions, total_commits + 1, Some line)
         else if line \<noteq> [] \<and> current_commit \<noteq> None \<and> current_commit \<noteq> Some []
         then (let parts = split_on (CHR 0x09) line
               in if length parts = 3
                  then (case count_of (parts ! 0) of
                          Inl e \<Rightarrow> Inl e
                        | Inr added \<Rightarrow>
                            (case count_of (parts ! 1) of
                               Inl e \<Rightarrow> Inl e
                             | Inr deleted \<Rightarrow>
                                 churn_lines rest
                                   (total_additions + added, total_deletions + deleted,
                                    total_commits, current_commit)))
                  else churn_lines rest
                         (total_additions, total_deletions, total_commits, current_commit))
         else churn_lines rest (total_additions, total_deletions, total_commits, current_commit))"

definition get_code_churn :: "git_env \<Rightarrow> exn + rat \<times> rat" where
  "get_code_churn env =
     (case subprocess_run env code_churn_cmd True True of
        Inl (CalledProcessError argv rc err text_mode) \<Rightarrow> Inr (0, 0)
      | Inl (Exception msg) \<Rightarrow> Inl (Exception msg)
      | Inr result \<Rightarrow>
          (case churn_lines (split_on (CHR 0x0A) (strip (stdout result))) (0, 0, 0, None) of
             Inl e \<Rightarrow> Inl e
           | Inr (total_additions, total_deletions, total_commits, current_commit) \<Rightarrow>
               Inr (if total_commits \<noteq> 0 then of_int total_additions / of_int total_commits else 0,
                    if total_commits \<noteq> 0 then of_int total_deletions / of_int total_commits else 0)))"

definition process_project :: "git_env \<Rightarrow> string \<Rightarrow> project_info option" where
  \<comment> \<open>\<open>None\<close> is Python's \<open>None\<close>, returned from \<open>except Exception\<close>\<close>
  "process_project env project_name =
     (case get_commit_frequency env of
        Inl e \<Rightarrow> None
      | Inr avg_commits \<Rightarrow>
          (case get_code_churn env of
             Inl e \<Rightarrow> None
           | Inr (avg_additions, avg_deletions) \<Rightarrow>
               Some \<lparr>project = project_name, avg_commits_per_day = avg_commits,
                     avg_lines_added_per_commit = avg_additions,
                     avg_lines_deleted_per_commit = avg_deletions\<rparr>))"

definition process_with_timeout :: "bool \<Rightarrow> ('a \<Rightarrow> 'b option) \<Rightarrow> 'a \<Rightarrow> 'b option" where
  \<comment> \<open>the value of \<open>func(*args)\<close> when the worker is done in time, \<open>None\<close> after
      \<open>multiprocessing.TimeoutError\<close>; the flag says which\<close>
  "process_with_timeout in_time func args = (if in_time then func args else None)"

record main_result =
  project_data :: "project_info list"
  skipped_projects :: "string list"
  output_csv :: "project_info list option"
  skipped_file :: "string list option"

fun main_loop ::
  "dir_entry list \<Rightarrow> project_info list \<times> string list
     \<Rightarrow> project_info list \<times> string list" where
  \<comment> \<open>\<open>for project_name in os.listdir(projects_folder)\<close>, on the two lists\<close>
  "main_loop [] acc = acc"
| "main_loop (e # es) (data, skipped) =
     (if is_dir e \<and> has_git e
      then (case process_with_timeout (within_timeout (gitdir e))
                   (process_project (replies (gitdir e))) (entry_name e) of
              Some info \<Rightarrow> main_loop es (data @ [info], skipped)
            | None \<Rightarrow> main_loop es (data, skipped @ [entry_name e]))
      else main_loop es (data, skipped))"

definition main :: "dir_entry list \<Rightarrow> main_result" where
  \<comment> \<open>a file that is not written is \<open>None\<close>: the CSV is written \<open>if project_data\<close>, the
      list of skipped projects \<open>if skipped_projects\<close>\<close>
  "main listing =
     (case main_loop listing ([], []) of
        (data, skipped) \<Rightarrow>
          \<lparr>project_data = data, skipped_projects = skipped,
           output_csv = (if data \<noteq> [] then Some data else None),
           skipped_file = (if skipped \<noteq> [] then Some skipped else None)\<rparr>)"

text \<open>
  The words of the batch property: the enumerated git projects, and what the
  processing of one of them gives (\<open>None\<close> for a project that fails or times out).
\<close>

definition git_projects :: "dir_entry list \<Rightarrow> dir_entry list" where
  "git_projects listing = filter (\<lambda>e. is_dir e \<and> has_git e) listing"

definition outcome :: "dir_entry \<Rightarrow> project_info option" where
  "outcome e =
     process_with_timeout (within_timeout (gitdir e))
       (process_project (replies (gitdir e))) (entry_name e)"


section \<open>github_spider.py: requests with rate-limit handling\<close>

text \<open>
  The GitHub server, the clock and the platform's \<open>time.sleep\<close> are the environment of
  \<open>_make_request\<close>: the \<open>i\<close>-th \<open>session.get\<close> of a call returns \<open>server i\<close> (a
  response, or an exception of the connection), \<open>clock i\<close> is what \<open>time.time()\<close> reads
  while that response is handled, and \<open>sleeps i secs\<close> says that the platform accepts a
  sleep of \<open>secs\<close> seconds then (a platform may refuse a long one with \<open>OSError\<close>).  The
  trace records each \<open>session.get\<close> and each \<open>time.sleep\<close> that returns.  The value
  returned is a JSON value, Python's \<open>None\<close> being \<open>JNull\<close>.  Times are rationals.
\<close>

record response =
  status_code :: int
  resp_text :: string
  rate_limit_reset :: "string option"
  json_body :: "pyerr + json"

type_synonym query = "(string \<times> json) list option"

datatype event = Get string query | Sleep rat

definition lower_chr :: "char \<Rightarrow> char" where
  \<comment> \<open>the capital letters of ASCII and of Latin-1 (192 to 222 without the sign 215)\<close>
  "lower_chr c =
     (let n = (of_char c :: nat)
      in if (65 \<le> n \<and> n \<le> 90) \<or> (192 \<le> n \<and> n \<le> 222 \<and> n \<noteq> 215) then char_of (n + 32)
         else c)"

definition lower :: "string \<Rightarrow> string" where
  \<comment> \<open>\<open>s.lower()\<close>\<close>
  "lower s = map lower_chr s"

definition reset_time :: "response \<Rightarrow> pyerr + int" where
  \<comment> \<open>\<open>int(response.headers.get('X-RateLimit-Reset', 0))\<close>\<close>
  "reset_time response =
     (case rate_limit_reset response of None \<Rightarrow> Inr 0 | Some h \<Rightarrow> py_int h)"

definition float_overflows :: "int \<Rightarrow> bool" where
  \<comment> \<open>the integer is too large for a float, so that \<open>reset_time - time.time()\<close> raises
      \<open>OverflowError\<close>: it rounds to \<open>2 ^ 1024\<close> or beyond\<close>
  "float_overflows n = (2 ^ 1024 - 2 ^ 970 \<le> \<bar>n\<bar>)"

definition sleep_time :: "int \<Rightarrow> rat \<Rightarrow> pyerr + rat" where
  \<comment> \<open>\<open>max(reset_time - time.time(), 0) + 1\<close>\<close>
  "sleep_time reset now =
     (if float_overflows reset then Inl OtherError else Inr (max (of_int reset - now) 0 + 1))"

definition sleep_overflows :: "rat \<Rightarrow> bool" where
  \<comment> \<open>\<open>time.sleep\<close> counts nanoseconds in 64 bits and raises \<open>OverflowError\<close> beyond\<close>
  "sleep_overflows secs = (2 ^ 63 \<le> secs * 10 ^ 9)"

definition BASE_URL :: string where
  "BASE_URL = ''https://api.github.com''"

partial_function (option) request_loop ::
  "(nat \<Rightarrow> pyerr + response) \<Rightarrow> (nat \<Rightarrow> rat) \<Rightarrow> (nat \<Rightarrow> rat \<Rightarrow> bool) \<Rightarrow> string \<Rightarrow> query
     \<Rightarrow> nat \<Rightarrow> event list \<Rightarrow> (json \<times> event list) option" where
  \<comment> \<open>\<open>while True\<close> inside \<open>try\<close>: the value returned with the trace, or no result when
      the loop runs forever.  Every exception ends in \<open>return None\<close>, also that of
      \<open>int\<close>, of the subtraction and of \<open>time.sleep\<close>; \<open>raise_for_status\<close> raises for a
      status from 400 to 599 only.\<close>
  "request_loop server clock sleeps url params i trace =
     (case server i of
        Inl e \<Rightarrow> Some (JNull, trace @ [Get url params])
      | Inr response \<Rightarrow>
          if status_code response = 200
          then (case json_body response of
                  Inl e \<Rightarrow> Some (JNull, trace @ [Get url params])
                | Inr j \<Rightarrow> Some (j, trace @ [Get url params]))
          else if status_code response = 403
                  \<and> in_str ''rate limit exceeded'' (lower (resp_text response))
          then (case reset_time response of
                  Inl e \<Rightarrow> Some (JNull, trace @ [Get url params])
                | Inr reset \<Rightarrow>
                    (case sleep_time reset (clock i) of
                       Inl e \<Rightarrow> Some (JNull, trace @ [Get url params])
                     | Inr secs \<Rightarrow>
                         if sleep_overflows secs \<or> \<not> sleeps i secs
                         then Some (JNull, trace @ [Get url params])
                         else request_loop server clock sleeps url params (Suc i)
                                (trace @ [Get url params, Sleep secs])))
          else if status_code response = 422
                  \<and> in_str ''Only the first 1000 search results are available''
                        (resp_text response)
          then Some (JNull, trace @ [Get url params])
          else if 400 \<le> status_code response \<and> status_code response < 600
          then Some (JNull, trace @ [Get url params])
          else request_loop server clock sleeps url params (Suc i) (trace @ [Get url params]))"

declare request_loop.simps [code]

definition make_request ::
  "(nat \<Rightarrow> pyerr + response) \<Rightarrow> (nat \<Rightarrow> rat) \<Rightarrow> (nat \<Rightarrow> rat \<Rightarrow> bool) \<Rightarrow> string \<Rightarrow> query
     \<Rightarrow> (json \<times> event list) option" where
  \<comment> \<open>\<open>_make_request(endpoint, params)\<close>\<close>
  "make_request server clock sleeps endpoint params =
     request_loop server clock sleeps (BASE_URL @ ''/'' @ endpoint) params 0 []"

text \<open>
  The words of the retry property: a throttling response, the response of the result
  window, the seconds that a throttling response makes the script wait (when its reset
  header reads as an integer that a float holds), whether that wait can be slept, the
  sleep that the \<open>i\<close>-th response causes, and the trace of \<open>n\<close> throttled attempts from
  the \<open>i\<close>-th on.
\<close>

definition throttling :: "response \<Rightarrow> bool" where
  "throttling r = (status_code r = 403 \<and> in_str ''rate limit exceeded'' (lower (resp_text r)))"

definition window_limit :: "response \<Rightarrow> bool" where
  "window_limit r =
     (status_code r = 422
      \<and> in_str ''Only the first 1000 search results are available'' (resp_text r))"

definition wait_for :: "response \<Rightarrow> rat \<Rightarrow> pyerr + rat" where
  "wait_for r now = (case reset_time r of Inl e \<Rightarrow> Inl e | Inr reset \<Rightarrow> sleep_time reset now)"

definition can_wait :: "(nat \<Rightarrow> rat \<Rightarrow> bool) \<Rightarrow> nat \<Rightarrow> response \<Rightarrow> rat \<Rightarrow> bool" where
  "can_wait sleeps i r now =
     (case wait_for r now of
        Inl e \<Rightarrow> False
      | Inr secs \<Rightarrow> \<not> sleep_overflows secs \<and> sleeps i secs)"

definition nap :: "(nat \<Rightarrow> pyerr + response) \<Rightarrow> (nat \<Rightarrow> rat) \<Rightarrow> nat \<Rightarrow> rat" where
  "nap server clock i =
     (case server i of
        Inl e \<Rightarrow> 0
      | Inr r \<Rightarrow> (case wait_for r (clock i) of Inl e \<Rightarrow> 0 | Inr secs \<Rightarrow> secs))"

fun retry_trace ::
  "(nat \<Rightarrow> pyerr + response) \<Rightarrow> (nat \<Rightarrow> rat) \<Rightarrow> string \<Rightarrow> query \<Rightarrow> nat \<Rightarrow> nat \<Rightarrow> event list" where
  "retry_trace server clock url params i 0 = []"
| "retry_trace server clock url params i (Suc n) =
     Get url params # Sleep (nap server clock i) # retry_trace server clock url params (Suc i) n"

definition backs_off ::
  "(nat \<Rightarrow> pyerr + response) \<Rightarrow> (nat \<Rightarrow> rat) \<Rightarrow> (nat \<Rightarrow> rat \<Rightarrow> bool) \<Rightarrow> nat \<Rightarrow> bool" where
  \<comment> \<open>the \<open>k\<close>-th response is a throttling response whose wait can be slept\<close>
  "backs_off server clock sleeps k =
     (case server k of Inl e \<Rightarrow> False | Inr r \<Rightarrow> throttling r \<and> can_wait sleeps k r (clock k))"

definition throttled_until ::
  "(nat \<Rightarrow> pyerr + response) \<Rightarrow> (nat \<Rightarrow> rat) \<Rightarrow> (nat \<Rightarrow> rat \<Rightarrow> bool) \<Rightarrow> nat \<Rightarrow> bool" where
  \<comment> \<open>the first \<open>n\<close> responses are such responses\<close>
  "throttled_until server clock sleeps n = (\<forall>k<n. backs_off server clock sleeps k)"

text \<open>
  Concrete environments: a server that answers with the responses of a list and then
  with one response for ever, a clock that advances by a second with each request, a
  platform that accepts every sleep, and one that accepts the sleeps below a limit.
\<close>

definition serving :: "'a list \<Rightarrow> 'a \<Rightarrow> nat \<Rightarrow> 'a" where
  "serving xs x k = (if k < length xs then xs ! k else x)"

definition ticking :: "rat \<Rightarrow> nat \<Rightarrow> rat" where
  "ticking t0 k = t0 + of_nat k"

definition any_sleep :: "nat \<Rightarrow> rat \<Rightarrow> bool" where
  "any_sleep k secs = True"

definition sleeps_below :: "rat \<Rightarrow> nat \<Rightarrow> rat \<Rightarrow> bool" where
  "sleeps_below limit k secs = (secs < limit)"


section \<open>revert_repos.py: repositories at a past date\<close>

text \<open>
  What git answers in a repository is given with the repository (\<open>git\<close>).  \<open>os.chdir\<close>
  into a listed directory and back is taken to succeed, and so is writing the log.
\<close>

definition symbolic_ref_cmd :: "string list" where
  "symbolic_ref_cmd = [''git'', ''symbolic-ref'', ''refs/remotes/origin/HEAD'']"

definition branch_list_cmd :: "string \<Rightarrow> string list" where
  "branch_list_cmd branch = [''git'', ''branch'', ''--list'', branch]"

definition show_current_cmd :: "string list" where
  "show_current_cmd = [''git'', ''branch'', ''--show-current'']"

definition checkout_cmd :: "string \<Rightarrow> string list" where
  "checkout_cmd default_branch = [''git'', ''checkout'', default_branch]"

definition get_commit_cmd :: "string \<Rightarrow> string list" where
  \<comment> \<open>the quotes are part of the argument\<close>
  "get_commit_cmd git_date_format =
     [''git'', ''rev-list'', ''-n'', ''1'',
      ''--before='' @ [CHR 0x22] @ git_date_format @ '' 23:59:59'' @ [CHR 0x22],
      ''--all'']"

definition get_date_cmd :: "string \<Rightarrow> string list" where
  "get_date_cmd commit_hash = [''git'', ''show'', ''-s'', ''--format=%ci'', commit_hash]"

definition reset_cmd :: "string \<Rightarrow> string list" where
  "reset_cmd commit_hash = [''git'', ''reset'', ''--hard'', commit_hash]"

fun try_branches :: "git_env \<Rightarrow> string list \<Rightarrow> string list list \<Rightarrow> (exn + string) \<times> string list list" where
  \<comment> \<open>\<open>for branch in ['main', 'master']: ... break\<close> with its \<open>else\<close>: the current branch\<close>
  "try_branches env [] cmds =
     (case subprocess_run env show_current_cmd True True of
        Inl e \<Rightarrow> (Inl e, cmds @ [show_current_cmd])
      | Inr current_branch \<Rightarrow> (Inr (strip (stdout current_branch)), cmds @ [show_current_cmd]))"
| "try_branches env (branch # branches) cmds =
     (case subprocess_run env (branch_list_cmd branch) False True of
        Inl e \<Rightarrow> (Inl e, cmds @ [branch_list_cmd branch])
      | Inr branch_check \<Rightarrow>
          if strip (stdout branch_check) \<noteq> [] then (Inr branch, cmds @ [branch_list_cmd branch])
          else try_branches env branches (cmds @ [branch_list_cmd branch]))"

definition resolve_default_branch :: "git_env \<Rightarrow> (exn + string) \<times> string list list" where
  \<comment> \<open>lines 47 to 76: the default branch or the exception raised, and the commands run\<close>
  "resolve_default_branch env =
     (case subprocess_run env symbolic_ref_cmd False True of
        Inl e \<Rightarrow> (Inl e, [symbolic_ref_cmd])
      | Inr result \<Rightarrow>
          if returncode result = 0
          then (Inr (last (split_on CHR ''/'' (strip (stdout result)))), [symbolic_ref_cmd])
          else try_branches env [''main'', ''master''] [symbolic_ref_cmd])"

definition checkout_default :: "git_env \<Rightarrow> string list list" where
  \<comment> \<open>lines 45 to 84: the inner \<open>try\<close>; its exceptions are printed and dropped\<close>
  "checkout_default env =
     (case resolve_default_branch env of
        (Inl e, cmds) \<Rightarrow> cmds
      | (Inr default_branch, cmds) \<Rightarrow> cmds @ [checkout_cmd default_branch])"

definition hex_digit :: "nat \<Rightarrow> char" where
  "hex_digit d = (if d < 10 then char_of (48 + d) else char_of (87 + d))"

definition repr_chr :: "char \<Rightarrow> char \<Rightarrow> string" where
  \<comment> \<open>one character inside \<open>repr\<close> of a string that is quoted with \<open>q\<close>: the quote and
      the backslash are escaped, and so are the characters that are not printable\<close>
  "repr_chr q c =
     (let n = (of_char c :: nat)
      in if c = q \<or> c = CHR 0x5C then [CHR 0x5C, c]
         else if n = 9 then [CHR 0x5C, CHR ''t'']
         else if n = 10 then [CHR 0x5C, CHR ''n'']
         else if n = 13 then [CHR 0x5C, CHR ''r'']
         else if n < 32 \<or> (127 \<le> n \<and> n \<le> 160) \<or> n = 173
         then [CHR 0x5C, CHR ''x'', hex_digit (n div 16), hex_digit (n mod 16)]
         else [c])"

definition py_repr :: "string \<Rightarrow> string" where
  \<comment> \<open>\<open>repr(s)\<close>: single quotes, unless the string has a single quote and no double
      quote\<close>
  "py_repr s =
     (let q = (if CHR 0x27 \<in> set s \<and> CHR 0x22 \<notin> set s then CHR 0x22 else CHR 0x27)
      in [q] @ concat (map (repr_chr q) s) @ [q])"

fun join_args :: "string list \<Rightarrow> string" where
  \<comment> \<open>what stands between the brackets of \<open>str\<close> of a list of strings\<close>
  "join_args [] = []"
| "join_args [a] = py_repr a"
| "join_args (a # b # bs) = py_repr a @ '', '' @ join_args (b # bs)"

definition signal_names :: "(int \<times> string) list" where
  \<comment> \<open>\<open>signal.Signals\<close> on Linux\<close>
  "signal_names =
     [(1, ''SIGHUP''), (2, ''SIGINT''), (3, ''SIGQUIT''), (4, ''SIGILL''), (5, ''SIGTRAP''),
      (6, ''SIGABRT''), (7, ''SIGBUS''), (8, ''SIGFPE''), (9, ''SIGKILL''), (10, ''SIGUSR1''),
      (11, ''SIGSEGV''), (12, ''SIGUSR2''), (13, ''SIGPIPE''), (14, ''SIGALRM''),
      (15, ''SIGTERM''), (16, ''SIGSTKFLT''), (17, ''SIGCHLD''), (18, ''SIGCONT''),
      (19, ''SIGSTOP''), (20, ''SIGTSTP''), (21, ''SIGTTIN''), (22, ''SIGTTOU''),
      (23, ''SIGURG''), (24, ''SIGXCPU''), (25, ''SIGXFSZ''), (26, ''SIGVTALRM''),
      (27, ''SIGPROF''), (28, ''SIGWINCH''), (29, ''SIGIO''), (30, ''SIGPWR''),
      (31, ''SIGSYS''), (34, ''SIGRTMIN''), (64, ''SIGRTMAX'')]"

definition str_called_process_error :: "string list \<Rightarrow> int \<Rightarrow> string" where
  \<comment> \<open>\<open>str(e)\<close>: the command is printed as a list inside single quotes, then the exit
      status or, for a negative one, the signal; an exit status is a machine integer,
      of few digits\<close>
  "str_called_process_error argv rc =
     ''Command '' @ [CHR 0x27] @ ''['' @ join_args argv @ '']'' @ [CHR 0x27]
     @ (if rc < 0
        then '' died with ''
             @ (case map_of signal_names (- rc) of
                  Some name \<Rightarrow> ''<Signals.'' @ name @ '': '' @ dec_str (- rc) @ ''>''
                | None \<Rightarrow> ''unknown signal '' @ dec_str (- rc))
             @ ''.''
        else '' returned non-zero exit status '' @ dec_str rc @ ''.'')"

definition error_message_of :: "exn \<Rightarrow> pyerr + string" where
  \<comment> \<open>the two handlers: \<open>e.stderr.decode(...) if e.stderr else str(e)\<close> for a
      \<open>CalledProcessError\<close>; a captured text has no \<open>decode\<close>\<close>
  "error_message_of e =
     (case e of
        CalledProcessError argv rc err text_mode \<Rightarrow>
          if err \<noteq> [] then (if text_mode then Inl AttributeError else Inr err)
          else Inr (str_called_process_error argv rc)
      | Exception msg \<Rightarrow> Inr msg)"

record repo_entry =
  repo_name :: string
  repo_is_dir :: bool
  repo_has_git :: bool
  git :: git_env

record revert_state =
  failed_projects :: "(string \<times> string) list"
  commands :: "(string \<times> string list) list"

definition ran :: "string \<Rightarrow> string list list \<Rightarrow> revert_state \<Rightarrow> revert_state" where
  "ran name cmds st = st\<lparr>commands := commands st @ map (Pair name) cmds\<rparr>"

definition failed :: "string \<Rightarrow> string \<Rightarrow> revert_state \<Rightarrow> revert_state" where
  "failed name error_message st =
     st\<lparr>failed_projects := failed_projects st @ [(name, error_message)]\<rparr>"

definition handle_exn :: "string \<Rightarrow> exn \<Rightarrow> revert_state \<Rightarrow> revert_state \<times> pyerr option" where
  \<comment> \<open>an exception of the handler itself leaves the loop\<close>
  "handle_exn name e st =
     (case error_message_of e of
        Inl err \<Rightarrow> (st, Some err)
      | Inr error_message \<Rightarrow> (failed name error_message st, None))"

definition revert_one :: "string \<Rightarrow> repo_entry \<Rightarrow> revert_state \<Rightarrow> revert_state \<times> pyerr option" where
  \<comment> \<open>the body of \<open>for repo_path in repos\<close>: the state it leaves, and the exception
      that leaves the loop, if any\<close>
  "revert_one git_date_format r st =
     (let name = repo_name r;
          env = git r;
          st1 = ran name (checkout_default env @ [get_commit_cmd git_date_format]) st
      in case subprocess_run env (get_commit_cmd git_date_format) True True of
           Inl e \<Rightarrow> handle_exn name e st1
         | Inr result \<Rightarrow>
             (let commit_hash = strip (stdout result)
              in if commit_hash = []
                 then (failed name ''No commits found before target date'' st1, None)
                 else
                   (let st2 = ran name [get_date_cmd commit_hash] st1
                    in case subprocess_run env (get_date_cmd commit_hash) True True of
                         Inl e \<Rightarrow> handle_exn name e st2
                       | Inr date_result \<Rightarrow>
                           (let st3 = ran name [reset_cmd commit_hash] st2
                            in case subprocess_run env (reset_cmd commit_hash) True False of
                                 Inl e \<Rightarrow> handle_exn name e st3
                               | Inr _ \<Rightarrow> (st3, None)))))"

fun revert_loop :: "string \<Rightarrow> repo_entry list \<Rightarrow> revert_state \<Rightarrow> revert_state \<times> pyerr option" where
  "revert_loop git_date_format [] st = (st, None)"
| "revert_loop git_date_format (r # rs) st =
     (case revert_one git_date_format r st of
        (st1, Some e) \<Rightarrow> (st1, Some e)
      | (st1, None) \<Rightarrow> revert_loop git_date_format rs st1)"

datatype ending = Returned | Exited int | Raised pyerr

record revert_result =
  final :: revert_state
  log_file :: "(string \<times> string list) option"
  ending :: ending

definition log_lines :: "(string \<times> string) list \<Rightarrow> string list" where
  "log_lines failed_list =
     ''Projects that failed to revert:'' # map (\<lambda>(p, error). p @ '': '' @ error) failed_list"

definition revert_repos_to_date ::
  "(string \<Rightarrow> pyerr + string) \<Rightarrow> bool \<Rightarrow> repo_entry list \<Rightarrow> string \<Rightarrow> revert_result" where
  \<comment> \<open>\<open>reformat\<close> is \<open>strptime\<close> with \<open>%d-%m-%Y\<close> followed by \<open>strftime\<close> with \<open>%Y-%m-%d\<close>;
      the flag says whether the folder exists, the list is what \<open>iterdir\<close> gives\<close>
  "revert_repos_to_date reformat folder_exists listing target_date =
     (let nothing = \<lparr>failed_projects = [], commands = []\<rparr>
      in case reformat target_date of
           Inl e \<Rightarrow> \<lparr>final = nothing, log_file = None, ending = Raised e\<rparr>
         | Inr git_date_format \<Rightarrow>
             if \<not> folder_exists then \<lparr>final = nothing, log_file = None, ending = Exited 1\<rparr>
             else
               (let repos = filter (\<lambda>d. repo_is_dir d \<and> repo_has_git d) listing
                in if repos = [] then \<lparr>final = nothing, log_file = None, ending = Exited 1\<rparr>
                   else
                     (case revert_loop git_date_format repos nothing of
                        (st, Some e) \<Rightarrow> \<lparr>final = st, log_file = None, ending = Raised e\<rparr>
                      | (st, None) \<Rightarrow>
                          \<lparr>final = st,
                           log_file =
                             (if failed_projects st \<noteq> []
                              then Some (''logs/failed_projects_'' @ target_date @ ''.log'',
                                         log_lines (failed_projects st))
                              else None),
                           ending = Returned\<rparr>)))"

text \<open>
  The words of the two properties: a repository without a commit up to the date
  (\<open>rev-list\<close> succeeds and prints nothing), and a command that rewrites the working
  tree.
\<close>

definition no_commit_before :: "string \<Rightarrow> repo_entry \<Rightarrow> bool" where
  "no_commit_before git_date_format r =
     (case subprocess_run (git r) (get_commit_cmd git_date_format) True True of
        Inl e \<Rightarrow> False
      | Inr result \<Rightarrow> strip (stdout result) = [])"

definition is_reset :: "string list \<Rightarrow> bool" where
  "is_reset argv = (take 3 argv = [''git'', ''reset'', ''--hard''])"

definition is_checkout :: "string list \<Rightarrow> bool" where
  "is_checkout argv = (take 2 argv = [''git'', ''checkout''])"


section \<open>get_contributors.py: contributor counts for the rows of a CSV\<close>

subsection \<open>\<open>urllib.parse.urlparse\<close>\<close>

text \<open>
  \<open>urlparse\<close> is the standard library's.  The model follows \<open>urlsplit\<close> and \<open>urlparse\<close> of
  CPython 3.11 on 8-bit strings and gives the scheme, the network location and the
  path: leading control characters and blanks and every tab and line break are
  removed; a scheme is what stands before the first colon when it starts with a letter
  and has scheme characters only; the network location follows \<open>//\<close> up to the next
  \<open>/\<close>, \<open>?\<close> or \<open>#\<close>; a bracket without its partner raises \<open>ValueError\<close>, and so
  does a pair of brackets around what is neither an IPv6 address (as \<open>ipaddress\<close>
  reads it) nor an address of a future version; the path ends before the fragment, the
  query and the parameters of its last segment.
\<close>

definition is_alpha :: "char \<Rightarrow> bool" where
  "is_alpha c =
     ((65 \<le> (of_char c :: nat) \<and> (of_char c :: nat) \<le> 90)
      \<or> (97 \<le> (of_char c :: nat) \<and> (of_char c :: nat) \<le> 122))"

definition scheme_char :: "char \<Rightarrow> bool" where
  "scheme_char c = (is_alpha c \<or> is_digit c \<or> c \<in> set ''+-.'')"

definition uses_params :: "string list" where
  "uses_params = ['''', ''ftp'', ''hdl'', ''prospero'', ''http'', ''imap'', ''https'', ''shttp'',
                  ''rtsp'', ''rtspu'', ''sip'', ''sips'', ''mms'', ''sftp'', ''tel'']"

definition split_scheme :: "string \<Rightarrow> string \<times> string" where
  "split_scheme url =
     (let pre = takeWhile (\<lambda>c. c \<noteq> CHR '':'') url;
          rest = dropWhile (\<lambda>c. c \<noteq> CHR '':'') url
      in if rest \<noteq> [] \<and> pre \<noteq> [] \<and> is_alpha (hd pre) \<and> list_all scheme_char pre
         then (lower pre, tl rest)
         else ([], url))"

definition is_hex :: "char \<Rightarrow> bool" where
  "is_hex c = (is_digit c \<or> c \<in> set ''abcdefABCDEF'')"

definition ipv4_octet :: "string \<Rightarrow> bool" where
  \<comment> \<open>\<open>_parse_octet\<close>: one to three digits, no leading zero, at most 255\<close>
  "ipv4_octet s =
     (s \<noteq> [] \<and> list_all is_digit s \<and> length s \<le> 3 \<and> (s = ''0'' \<or> hd s \<noteq> CHR ''0'')
      \<and> dec_val s \<le> 255)"

definition ipv4_ok :: "string \<Rightarrow> bool" where
  \<comment> \<open>\<open>IPv4Address(s)\<close> does not raise\<close>
  "ipv4_ok s =
     (s \<noteq> [] \<and> CHR ''/'' \<notin> set s \<and> length (split_on CHR ''.'' s) = 4
      \<and> list_all ipv4_octet (split_on CHR ''.'' s))"

definition hextet :: "string \<Rightarrow> bool" where
  \<comment> \<open>\<open>_parse_hextet\<close>: one to four hexadecimal digits\<close>
  "hextet s = (s \<noteq> [] \<and> list_all is_hex s \<and> length s \<le> 4)"

definition ipv6_ok :: "string \<Rightarrow> bool" where
  \<comment> \<open>\<open>IPv6Address(s)\<close> does not raise: an optional scope after \<open>%\<close>; three to nine
      parts between colons, the last of which may be an IPv4 address that stands for
      two parts; with one empty part inside (\<open>::\<close>) the parts before and after it are
      hextets, at most seven, and an empty first or last part belongs to the \<open>::\<close>;
      without one there are eight hextets\<close>
  "ipv6_ok s =
     (let addr = takeWhile (\<lambda>c. c \<noteq> CHR ''%'') s;
          scope = dropWhile (\<lambda>c. c \<noteq> CHR ''%'') s;
          parts0 = split_on CHR '':'' addr;
          v4 = (CHR ''.'' \<in> set (last parts0));
          parts = (if v4 then butlast parts0 @ [''0'', ''0''] else parts0);
          n = length parts;
          skips = filter (\<lambda>i. parts ! i = []) [1..<n - 1]
      in CHR ''/'' \<notin> set s
         \<and> (scope = [] \<or> (tl scope \<noteq> [] \<and> CHR ''%'' \<notin> set (tl scope)))
         \<and> addr \<noteq> [] \<and> 3 \<le> length parts0
         \<and> (if v4 then ipv4_ok (last parts0) else True)
         \<and> n \<le> 9
         \<and> (case skips of
               [] \<Rightarrow> n = 8 \<and> list_all hextet parts
             | [k] \<Rightarrow>
                 (let parts_hi = (if hd parts = [] then k - 1 else k);
                      parts_lo = (if last parts = [] then n - k - 2 else n - k - 1)
                  in (if hd parts = [] then parts_hi = 0 else True)
                     \<and> (if last parts = [] then parts_lo = 0 else True)
                     \<and> parts_hi + parts_lo \<le> 7
                     \<and> list_all hextet (take parts_hi parts)
                     \<and> list_all hextet (drop (n - parts_lo) parts))
             | _ \<Rightarrow> False))"

definition ipvfuture_ok :: "string \<Rightarrow> bool" where
  \<comment> \<open>\<open>re.match(r"\Av[a-fA-F0-9]+\..+\Z", s)\<close>, for a string that starts with \<open>v\<close>\<close>
  "ipvfuture_ok s =
     (let digits = takeWhile is_hex (tl s);
          rest = dropWhile is_hex (tl s)
      in digits \<noteq> [] \<and> rest \<noteq> [] \<and> hd rest = CHR ''.'' \<and> tl rest \<noteq> []
         \<and> CHR 0x0A \<notin> set (tl rest))"

definition check_bracketed_host :: "string \<Rightarrow> bool" where
  \<comment> \<open>\<open>_check_bracketed_host\<close> does not raise\<close>
  "check_bracketed_host hostname =
     (if hostname \<noteq> [] \<and> hd hostname = CHR ''v'' then ipvfuture_ok hostname
      else ipv6_ok hostname)"

definition split_netloc :: "string \<Rightarrow> pyerr + string \<times> string" where
  "split_netloc url =
     (if take 2 url = ''//''
      then (let netloc = takeWhile (\<lambda>c. c \<notin> set ''/?#'') (drop 2 url);
                rest = dropWhile (\<lambda>c. c \<notin> set ''/?#'') (drop 2 url);
                bracketed_host =
                  takeWhile (\<lambda>c. c \<noteq> CHR '']'') (tl (dropWhile (\<lambda>c. c \<noteq> CHR ''['') netloc))
            in if (CHR ''['' \<in> set netloc \<and> CHR '']'' \<notin> set netloc)
                  \<or> (CHR '']'' \<in> set netloc \<and> CHR ''['' \<notin> set netloc)
               then Inl ValueError
               else if CHR ''['' \<in> set netloc \<and> CHR '']'' \<in> set netloc
                       \<and> \<not> check_bracketed_host bracketed_host
               then Inl ValueError
               else Inr (netloc, rest))
      else Inr ([], url))"

definition split_params :: "string \<Rightarrow> string" where
  \<comment> \<open>the path without the parameters of its last segment\<close>
  "split_params url =
     (let last_segment = rev (takeWhile (\<lambda>c. c \<noteq> CHR ''/'') (rev url));
          before = take (length url - length last_segment) url
      in before @ takeWhile (\<lambda>c. c \<noteq> CHR '';'') last_segment)"

definition urlparse :: "string \<Rightarrow> pyerr + string \<times> string \<times> string" where
  \<comment> \<open>scheme, netloc and path\<close>
  "urlparse url0 =
     (let url1 = dropWhile (\<lambda>c. (of_char c :: nat) \<le> 32) url0;
          url2 = filter (\<lambda>c. (of_char c :: nat) \<notin> {9, 10, 13}) url1;
          (scheme, url3) = split_scheme url2
      in case split_netloc url3 of
           Inl e \<Rightarrow> Inl e
         | Inr (netloc, url4) \<Rightarrow>
             (let url5 = takeWhile (\<lambda>c. c \<noteq> CHR ''#'') url4;
                  url6 = takeWhile (\<lambda>c. c \<noteq> CHR ''?'') url5;
                  path = (if scheme \<in> set uses_params then split_params url6 else url6)
              in Inr (scheme, netloc, path)))"

subsection \<open>The script\<close>

definition parse_github_url :: "string \<Rightarrow> pyerr + string option \<times> string option" where
  \<comment> \<open>owner and repository, or \<open>(None, None)\<close>\<close>
  "parse_github_url html_url =
     (case urlparse html_url of
        Inl e \<Rightarrow> Inl e
      | Inr (scheme, netloc, path) \<Rightarrow>
          (let path_parts = split_on CHR ''/'' (strip_chars ''/'' path)
           in if length path_parts < 2 \<or> netloc \<noteq> ''github.com'' then Inr (None, None)
              else Inr (Some (path_parts ! 0), Some (path_parts ! 1))))"

text \<open>
  A row of \<open>csv.DictReader\<close> maps a field name to a string, or to \<open>None\<close> when the line
  is short.  A row of the output maps a column to a string, to \<open>None\<close> or to a number.
  The count that \<open>get_repo_contributors_count_graphql\<close> fetches for an owner and a
  repository is a parameter, and so is what reading the file gives: an exception, or
  the field names and the rows.
\<close>

type_synonym csv_row = "(string \<times> string option) list"

datatype cell = Str string | NoneCell | Num int

type_synonym out_row = "(string \<times> cell) list"

definition row_get :: "csv_row \<Rightarrow> string \<Rightarrow> string \<Rightarrow> string option" where
  \<comment> \<open>\<open>row.get(key, default)\<close>\<close>
  "row_get row key dflt = (case map_of row key of None \<Rightarrow> Some dflt | Some v \<Rightarrow> v)"

fun dict_put :: "string \<Rightarrow> cell \<Rightarrow> out_row \<Rightarrow> out_row" where
  \<comment> \<open>\<open>d[key] = value\<close>: a new key goes last, a known key keeps its place\<close>
  "dict_put k v [] = [(k, v)]"
| "dict_put k v ((k', v') # d) = (if k = k' then (k, v) # d else (k', v') # dict_put k v d)"

definition cell_of :: "string option \<Rightarrow> cell" where
  "cell_of v = (case v of None \<Rightarrow> NoneCell | Some s \<Rightarrow> Str s)"

definition new_row_of :: "string list \<Rightarrow> string list \<Rightarrow> csv_row \<Rightarrow> out_row" where
  \<comment> \<open>\<open>{col: row.get(col, '') for col in required_columns if col in fieldnames}\<close>\<close>
  "new_row_of required_columns fieldnames row =
     foldl (\<lambda>d col. dict_put col (cell_of (row_get row col [])) d) []
       (filter (\<lambda>col. col \<in> set fieldnames) required_columns)"

definition process_row ::
  "(string \<Rightarrow> string \<Rightarrow> int) \<Rightarrow> string list \<Rightarrow> string list \<Rightarrow> string \<Rightarrow> csv_row \<Rightarrow> pyerr + out_row" where
  \<comment> \<open>the body of \<open>for row in csv_reader\<close>; \<open>None\<close> has no \<open>strip\<close>\<close>
  "process_row fetch required_columns fieldnames url_column row =
     (let new_row = new_row_of required_columns fieldnames row
      in case row_get row url_column [] of
           None \<Rightarrow> Inl AttributeError
         | Some raw \<Rightarrow>
             (let html_url = strip raw
              in if html_url \<noteq> [] \<and> in_str ''github.com'' html_url
                 then (case parse_github_url html_url of
                         Inl e \<Rightarrow> Inl e
                       | Inr (Some owner, Some repo) \<Rightarrow>
                           if owner \<noteq> [] \<and> repo \<noteq> []
                           then Inr (dict_put ''contributors_count'' (Num (fetch owner repo))
                                       new_row)
                           else Inr (dict_put ''contributors_count'' (Num 0) new_row)
                       | Inr _ \<Rightarrow> Inr (dict_put ''contributors_count'' (Num 0) new_row))
                 else Inr (dict_put ''contributors_count'' (Num 0) new_row)))"

fun process_rows ::
  "(string \<Rightarrow> string \<Rightarrow> int) \<Rightarrow> string list \<Rightarrow> string list \<Rightarrow> string \<Rightarrow> csv_row list
     \<Rightarrow> out_row list \<Rightarrow> pyerr + out_row list" where
  "process_rows fetch required_columns fieldnames url_column [] processed_rows = Inr processed_rows"
| "process_rows fetch required_columns fieldnames url_column (row # rows) processed_rows =
     (case process_row fetch required_columns fieldnames url_column row of
        Inl e \<Rightarrow> Inl e
      | Inr new_row \<Rightarrow>
          process_rows fetch required_columns fieldnames url_column rows
            (processed_rows @ [new_row]))"

definition process_csv_with_specific_columns ::
  "(string \<Rightarrow> string \<Rightarrow> int) \<Rightarrow> pyerr + string list option \<times> csv_row list \<Rightarrow> string
     \<Rightarrow> out_row list \<times> string list" where
  \<comment> \<open>every exception ends in \<open>return [], []\<close>; without field names the test
      \<open>column not in csv_reader.fieldnames\<close> raises\<close>
  "process_csv_with_specific_columns fetch csv_file url_column =
     (let required_columns = [url_column, ''stargazers_count'', ''forks_count'',
                              ''open_issues_count''];
          output_columns = required_columns @ [''contributors_count'']
      in case csv_file of
           Inl e \<Rightarrow> ([], [])
         | Inr (None, rows) \<Rightarrow> ([], [])
         | Inr (Some fieldnames, rows) \<Rightarrow>
             (case process_rows fetch required_columns fieldnames url_column rows [] of
                Inl e \<Rightarrow> ([], [])
              | Inr processed_rows \<Rightarrow> (processed_rows, output_columns)))"


section \<open>github_csv_filter.py: filtering the repositories of a CSV\<close>

record GitHubCSVFilter =
  input_file :: string
  repositories :: "csv_row list"

definition int_field :: "csv_row \<Rightarrow> string \<Rightarrow> pyerr + int" where
  \<comment> \<open>\<open>int(repo.get(key, 0))\<close>: 0 without the key, \<open>TypeError\<close> for \<open>None\<close>\<close>
  "int_field repo key =
     (case map_of repo key of
        None \<Rightarrow> Inr 0
      | Some None \<Rightarrow> Inl TypeError
      | Some (Some s) \<Rightarrow> py_int s)"

definition topic_count_of :: "csv_row \<Rightarrow> int" where
  \<comment> \<open>lines 66 to 74: the topics are a list written as a string; a value without
      \<open>strip\<close> (\<open>None\<close>) raises inside the \<open>try\<close> and counts 0\<close>
  "topic_count_of repo =
     (case row_get repo ''topics'' ''[]'' of
        None \<Rightarrow> 0
      | Some topics_str \<Rightarrow>
          (let cleaned = filter (\<lambda>c. c \<noteq> CHR 0x27 \<and> c \<noteq> CHR 0x22) (strip_chars ''[]'' topics_str);
               topics = filter (\<lambda>t. t \<noteq> []) (map strip (split_on CHR '','' cleaned))
           in int (length topics)))"

fun filter_loop :: "int \<Rightarrow> int \<Rightarrow> int \<Rightarrow> csv_row list \<Rightarrow> csv_row list \<Rightarrow> pyerr + csv_row list" where
  \<comment> \<open>\<open>for repo in self.repositories\<close>, on \<open>filtered_repos\<close>; an exception of \<open>int\<close>
      leaves the method\<close>
  "filter_loop min_stars min_open_issues min_topics [] filtered_repos = Inr filtered_repos"
| "filter_loop min_stars min_open_issues min_topics (repo # repos) filtered_repos =
     (case int_field repo ''stargazers_count'' of
        Inl e \<Rightarrow> Inl e
      | Inr stars \<Rightarrow>
          (case int_field repo ''open_issues_count'' of
             Inl e \<Rightarrow> Inl e
           | Inr open_issues \<Rightarrow>
               (let topic_count = topic_count_of repo
                in if stars \<ge> min_stars \<and> open_issues \<ge> min_open_issues
                      \<and> topic_count \<ge> min_topics
                   then filter_loop min_stars min_open_issues min_topics repos
                          (filtered_repos @ [repo])
                   else filter_loop min_stars min_open_issues min_topics repos filtered_repos)))"

definition filter_repositories ::
  "GitHubCSVFilter \<Rightarrow> int \<Rightarrow> int \<Rightarrow> int \<Rightarrow> (pyerr + csv_row list) \<times> GitHubCSVFilter" where
  \<comment> \<open>the list returned or the exception raised, and the object as the call leaves it\<close>
  "filter_repositories self min_stars min_open_issues min_topics =
     (filter_loop min_stars min_open_issues min_topics (repositories self) [], self)"

text \<open>
  The words of the property: a repository whose two counts are integers, and a
  repository that meets the thresholds.
\<close>

definition counts_are_integers :: "csv_row \<Rightarrow> bool" where
  "counts_are_integers repo =
     (case int_field repo ''stargazers_count'' of
        Inl e \<Rightarrow> False
      | Inr stars \<Rightarrow> (case int_field repo ''open_issues_count'' of Inl e \<Rightarrow> False | Inr n \<Rightarrow> True))"

definition meets :: "int \<Rightarrow> int \<Rightarrow> int \<Rightarrow> csv_row \<Rightarrow> bool" where
  "meets min_stars min_open_issues min_topics repo =
     (case int_field repo ''stargazers_count'' of
        Inl e \<Rightarrow> False
      | Inr stars \<Rightarrow>
          (case int_field repo ''open_issues_count'' of
             Inl e \<Rightarrow> False
           | Inr open_issues \<Rightarrow>
               stars \<ge> min_stars \<and> open_issues \<ge> min_open_issues
               \<and> topic_count_of repo \<ge> min_topics))"


section \<open>Durations: \<open>parse_time\<close> and \<open>format_time\<close>\<close>

subsection \<open>Decimal numerals\<close>

lemma str_nat_small: "n < 10 \<Longrightarrow> str_nat n = [digit_chr n]"
  by (subst str_nat.simps) simp

lemma str_nat_big: "\<not> n < 10 \<Longrightarrow> str_nat n = str_nat (n div 10) @ [digit_chr (n mod 10)]"
  by (subst str_nat.simps) simp

lemma digit_val_chr: "d < 10 \<Longrightarrow> digit_val (digit_chr d) = int d"
  by (simp add: digit_val_def digit_chr_def)

lemma is_digit_chr: "d < 10 \<Longrightarrow> is_digit (digit_chr d)"
  by (simp add: is_digit_def digit_chr_def)

lemma dec_val_snoc: "dec_val (ds @ [c]) = 10 * dec_val ds + digit_val c"
  by (simp add: dec_val_def)

lemma dec_val_str_nat: "dec_val (str_nat n) = int n"
proof (induction n rule: str_nat.induct)
  case (1 n)
  show ?case
  proof (cases "n < 10")
    case True
    then show ?thesis by (simp add: str_nat_small dec_val_def digit_val_chr)
  next
    case False
    have "dec_val (str_nat n) = 10 * dec_val (str_nat (n div 10)) + digit_val (digit_chr (n mod 10))"
      using False by (simp add: str_nat_big dec_val_snoc)
    also have "\<dots> = 10 * int (n div 10) + int (n mod 10)"
      using 1 False by (simp add: digit_val_chr)
    also have "\<dots> = int n" by presburger
    finally show ?thesis .
  qed
qed

lemma str_nat_number: "is_number (str_nat n)"
proof (induction n rule: str_nat.induct)
  case (1 n)
  show ?case
  proof (cases "n < 10")
    case True
    then show ?thesis by (simp add: str_nat_small is_number_def is_digit_chr)
  next
    case False
    then show ?thesis using 1
      by (simp add: str_nat_big is_number_def is_digit_chr)
  qed
qed

lemma dec_val_nonneg_aux: "list_all is_digit ds \<Longrightarrow> 0 \<le> a \<Longrightarrow> 0 \<le> foldl (\<lambda>a c. 10 * a + digit_val c) a ds"
  by (induction ds arbitrary: a) (auto simp: is_digit_def digit_val_def)

lemma dec_val_nonneg: "list_all is_digit ds \<Longrightarrow> 0 \<le> dec_val ds"
  by (simp add: dec_val_def dec_val_nonneg_aux)

lemma digit_not_int_space: "is_digit c \<Longrightarrow> \<not> int_space c"
  by (auto simp: is_digit_def int_space_def)

lemma digits_ok_digits: "list_all is_digit ds \<Longrightarrow> digits_ok b ds = (b \<or> ds \<noteq> [])"
  by (induction ds arbitrary: b) auto

lemma dropWhile_space_number: "is_number ds \<Longrightarrow> dropWhile int_space ds = ds"
  by (cases ds) (auto simp: is_number_def digit_not_int_space)

lemma is_number_rev: "is_number ds \<Longrightarrow> is_number (rev ds)"
  by (simp add: is_number_def list_all_iff)

lemma int_strip_number:
  "is_number ds \<Longrightarrow> rev (dropWhile int_space (rev (dropWhile int_space ds))) = ds"
  by (simp add: dropWhile_space_number is_number_rev)

lemma filter_underscore_digits: "list_all is_digit ds \<Longrightarrow> filter (\<lambda>c. c \<noteq> CHR ''_'') ds = ds"
  by (induction ds) (auto simp: is_digit_def)

lemma hd_number_digit: "is_number ds \<Longrightarrow> is_digit (hd ds)"
  by (cases ds) (auto simp: is_number_def)

lemma py_int_number:
  "is_number ds \<Longrightarrow>
   py_int ds = (if length ds \<le> int_max_str_digits then Inr (dec_val ds) else Inl ValueError)"
proof -
  assume n: "is_number ds"
  then have d: "is_digit (hd ds)" by (rule hd_number_digit)
  have "hd ds \<noteq> CHR ''-''" "hd ds \<noteq> CHR ''+''"
    using d by (auto simp: is_digit_def)
  then show ?thesis using n
    by (simp add: py_int_def int_strip_number Let_def digits_ok_digits filter_underscore_digits
        is_number_def)
qed

subsection \<open>The digits of an integer and the limit of the conversions\<close>

lemma str_nat_nonempty: "str_nat n \<noteq> []"
  using str_nat_number [of n] by (simp add: is_number_def)

lemma length_str_nat: "0 < k \<Longrightarrow> (length (str_nat n) \<le> k) = (n < 10 ^ k)"
proof (induction n arbitrary: k rule: str_nat.induct)
  case (1 n)
  show ?case
  proof (cases "n < 10")
    case True
    have "(10::nat) ^ 1 \<le> 10 ^ k" using "1.prems" by (intro power_increasing) simp_all
    then show ?thesis using True "1.prems" by (simp add: str_nat_small)
  next
    case False
    show ?thesis
    proof (cases "k = 1")
      case True
      then show ?thesis using False str_nat_nonempty [of "n div 10"]
        by (simp add: str_nat_big)
    next
      case k: False
      then obtain j where j: "k = Suc j" "0 < j" using "1.prems" by (cases k) auto
      have "(length (str_nat (n div 10)) \<le> j) = (n div 10 < 10 ^ j)"
        using "1.IH" [OF False j(2)] .
      also have "\<dots> = (n < 10 ^ j * 10)" by (simp add: div_less_iff_less_mult)
      finally show ?thesis using False j by (simp add: str_nat_big mult.commute)
    qed
  qed
qed

lemma max_digits_pos: "0 < int_max_str_digits" and max_digits_two: "2 \<le> int_max_str_digits"
  by (simp_all add: int_max_str_digits_def)

lemma fits_iff: "0 \<le> i \<Longrightarrow> fits i = (i < 10 ^ int_max_str_digits)"
proof -
  assume i: "0 \<le> i"
  have "fits i = (nat i < 10 ^ int_max_str_digits)"
    using i by (simp add: fits_def length_str_nat [OF max_digits_pos])
  also have "\<dots> = (i < int (10 ^ int_max_str_digits))"
    using i by (rule nat_less_iff)
  finally show ?thesis by simp
qed

lemma fits_small: "0 \<le> i \<Longrightarrow> i < 100 \<Longrightarrow> fits i"
proof -
  assume i: "0 \<le> i" "i < 100"
  have "(10::nat) ^ 2 \<le> 10 ^ int_max_str_digits"
    using max_digits_two by (intro power_increasing) simp_all
  moreover have "nat i < 10 ^ 2" using i by simp
  ultimately have "nat i < 10 ^ int_max_str_digits" by (rule less_le_trans [rotated])
  then show ?thesis using i by (simp add: fits_def length_str_nat [OF max_digits_pos])
qed

lemma not_fits_power: "int_max_str_digits \<le> n \<Longrightarrow> \<not> fits (10 ^ n)"
proof -
  assume "int_max_str_digits \<le> n"
  then have "(10::int) ^ int_max_str_digits \<le> 10 ^ n" by (intro power_increasing) simp_all
  then show ?thesis by (simp add: fits_iff)
qed

lemma dec_val_nines: "dec_val (replicate n CHR ''9'') = 10 ^ n - 1"
proof (induction n)
  case 0
  then show ?case by (simp add: dec_val_def)
next
  case (Suc n)
  have "replicate (Suc n) CHR ''9'' = replicate n CHR ''9'' @ ''9''"
    by (simp add: replicate_append_same)
  then have "dec_val (replicate (Suc n) CHR ''9'') = 10 * dec_val (replicate n CHR ''9'') + 9"
    by (simp only: dec_val_snoc) (simp add: digit_val_def)
  then show ?case using Suc by simp
qed

lemma nines_number: "0 < n \<Longrightarrow> is_number (replicate n CHR ''9'')"
  by (simp add: is_number_def list_all_iff is_digit_def)

subsection \<open>The regular-expression search finds the first digit run before the suffix\<close>

lemma filter_rev_upt_last:
  assumes "\<And>k. 1 \<le> k \<Longrightarrow> k < n \<Longrightarrow> \<not> P k" "1 \<le> n"
  shows "filter P (rev [1..<Suc n]) = (if P n then [n] else [])"
proof -
  have "filter P (rev [1..<n]) = []"
    using assms(1) by (auto simp: filter_empty_conv)
  then show ?thesis using assms(2) by simp
qed

lemma takeWhile_run: "list_all is_digit ds \<Longrightarrow> (rest = [] \<or> \<not> is_digit (hd rest)) \<Longrightarrow>
  takeWhile is_digit (ds @ rest) = ds"
  by (induction ds) (auto simp: takeWhile_eq_Nil_iff)

lemma dropWhile_run: "list_all is_digit ds \<Longrightarrow> dropWhile is_digit (ds @ rest) = dropWhile is_digit rest"
  by (induction ds) auto

lemma not_prefix_digit:
  assumes "suf \<noteq> []" "\<not> is_digit (hd suf)" "s \<noteq> []" "is_digit (hd s)"
  shows "\<not> prefix suf s"
  using assms by (cases suf; cases s) auto

lemma match_here_nondigit: "s = [] \<or> \<not> is_digit (hd s) \<Longrightarrow> match_here suf s = None"
  by (cases s) (auto simp: match_here_def)

lemma match_here_run:
  assumes ds: "is_number ds" and rest: "rest = [] \<or> \<not> is_digit (hd rest)"
    and suf: "suf \<noteq> []" "\<not> is_digit (hd suf)"
  shows "match_here suf (ds @ rest) = (if prefix suf rest then Some ds else None)"
proof -
  let ?s = "ds @ rest"
  let ?n = "length ds"
  have all: "list_all is_digit ds" and ne: "ds \<noteq> []" using ds by (auto simp: is_number_def)
  have tw: "takeWhile is_digit ?s = ds" using all rest by (rule takeWhile_run)
  have fail: "\<not> prefix suf (drop k ?s)" if "1 \<le> k" "k < ?n" for k
  proof -
    have "drop k ?s = drop k ds @ rest" using that by simp
    moreover have "drop k ds \<noteq> []" using that by simp
    moreover have "is_digit (hd (drop k ds))"
      using that all by (simp add: hd_drop_conv_nth list_all_length)
    ultimately show ?thesis
      using not_prefix_digit [OF suf, of "drop k ?s"] by simp
  qed
  have "filter (\<lambda>k. prefix suf (drop k ?s)) (rev [1..<Suc ?n])
        = (if prefix suf (drop ?n ?s) then [?n] else [])"
    by (rule filter_rev_upt_last) (use fail ne in \<open>auto simp: Suc_le_eq\<close>)
  then show ?thesis by (simp add: match_here_def tw)
qed

lemma re_search_skip_run:
  assumes all: "list_all is_digit ds" and rest: "rest = [] \<or> \<not> is_digit (hd rest)"
    and suf: "suf \<noteq> []" "\<not> is_digit (hd suf)" and np: "\<not> prefix suf rest"
  shows "re_search_num suf (ds @ rest) = re_search_num suf rest"
  using all
proof (induction ds)
  case Nil
  then show ?case by simp
next
  case (Cons d ds)
  have "is_number (d # ds)" using Cons.prems by (simp add: is_number_def)
  from match_here_run [OF this rest suf] np
  have "match_here suf ((d # ds) @ rest) = None" by simp
  then show ?case using Cons by simp
qed

lemma run_split: "is_digit c \<Longrightarrow>
  c # cs = (c # takeWhile is_digit cs) @ dropWhile is_digit cs \<and> is_number (c # takeWhile is_digit cs)
  \<and> (dropWhile is_digit cs = [] \<or> \<not> is_digit (hd (dropWhile is_digit cs)))"
  using hd_dropWhile [of is_digit cs]
  by (auto simp: is_number_def list_all_iff dest: set_takeWhileD)

lemma re_search_is_first_run:
  "suf \<noteq> [] \<Longrightarrow> \<not> is_digit (hd suf) \<Longrightarrow> re_search_num suf s = first_run_before suf s"
proof (induction suf s rule: first_run_before.induct)
  case (1 suf)
  then show ?case by (simp add: match_here_def)
next
  case (2 suf c cs)
  note suf = "2.prems"
  show ?case
  proof (cases "is_digit c")
    case False
    then have "match_here suf (c # cs) = None" by (simp add: match_here_nondigit)
    then show ?thesis using False 2 by simp
  next
    case True
    let ?ds = "c # takeWhile is_digit cs" and ?rest = "dropWhile is_digit cs"
    from run_split [OF True, of cs]
    have sp: "c # cs = ?ds @ ?rest" and num: "is_number ?ds"
      and rest: "?rest = [] \<or> \<not> is_digit (hd ?rest)" by blast+
    have all: "list_all is_digit ?ds" using num by (simp add: is_number_def)
    have mh: "match_here suf (c # cs) = (if prefix suf ?rest then Some ?ds else None)"
      by (subst sp) (rule match_here_run [OF num rest suf])
    show ?thesis
    proof (cases "prefix suf ?rest")
      case p: True
      then show ?thesis using True mh by simp
    next
      case np: False
      have "re_search_num suf (c # cs) = re_search_num suf ?rest"
        by (subst sp) (rule re_search_skip_run [OF all rest suf np])
      then show ?thesis using True np 2 by simp
    qed
  qed
qed

subsection \<open>What \<open>parse_time\<close> returns\<close>

lemma prefix_in_str: "prefix sub s \<Longrightarrow> in_str sub s"
  by (cases s) auto

lemma in_str_dropWhile: "in_str sub (dropWhile P s) \<Longrightarrow> in_str sub s"
  by (induction s) (auto split: if_splits)

lemma first_run_in_str: "first_run_before suf s = Some g \<Longrightarrow> in_str suf s"
proof (induction suf s rule: first_run_before.induct)
  case (1 suf)
  then show ?case by simp
next
  case (2 suf c cs)
  then show ?case
    by (auto split: if_splits dest: prefix_in_str in_str_dropWhile)
qed

lemma list_all_takeWhile: "list_all P (takeWhile P xs)"
  by (induction xs) simp_all

lemma first_run_number: "first_run_before suf s = Some g \<Longrightarrow> is_number g"
proof (induction suf s rule: first_run_before.induct)
  case (1 suf)
  then show ?case by simp
next
  case (2 suf c cs)
  show ?case
  proof (cases "is_digit c")
    case False
    then show ?thesis using 2 by simp
  next
    case True
    show ?thesis
    proof (cases "prefix suf (dropWhile is_digit cs)")
      case p: True
      then have "g = c # takeWhile is_digit cs" using 2(3) True by simp
      then show ?thesis using True by (simp add: is_number_def list_all_takeWhile)
    next
      case False
      then show ?thesis using 2 True by simp
    qed
  qed
qed

lemma first_run_length: "first_run_before suf s = Some g \<Longrightarrow> length g \<le> length s"
proof (induction suf s rule: first_run_before.induct)
  case (1 suf)
  then show ?case by simp
next
  case (2 suf c cs)
  show ?case
  proof (cases "is_digit c")
    case False
    then show ?thesis using 2 by simp
  next
    case True
    show ?thesis
    proof (cases "prefix suf (dropWhile is_digit cs)")
      case p: True
      then have "g = c # takeWhile is_digit cs" using 2(3) True by simp
      then show ?thesis by (simp add: length_takeWhile_le)
    next
      case False
      then have "length g \<le> length (dropWhile is_digit cs)" using 2 True by simp
      also have "\<dots> \<le> length cs" by (rule length_dropWhile_le)
      finally show ?thesis by simp
    qed
  qed
qed

lemma short_not_too_long: "length s \<le> int_max_str_digits \<Longrightarrow> \<not> too_long suf s"
  by (auto simp: too_long_def split: option.splits dest: first_run_length)

lemma component_nonneg: "0 \<le> component suf s"
proof (cases "first_run_before suf s")
  case None
  then show ?thesis by (simp add: component_def)
next
  case (Some g)
  then have "list_all is_digit g" using first_run_number [OF Some] by (simp add: is_number_def)
  then show ?thesis using Some by (simp add: component_def dec_val_nonneg)
qed

lemma parse_component_eq:
  assumes "suf \<noteq> []" "\<not> is_digit (hd suf)"
  shows "parse_component suf s
         = (if too_long suf s then Inl ValueError else Inr (component suf s))"
proof (cases "first_run_before suf s")
  case None
  then show ?thesis
    using assms
    by (simp add: parse_component_def component_def too_long_def re_search_is_first_run)
next
  case (Some g)
  then have "in_str suf s" "is_number g"
    by (auto dest: first_run_in_str first_run_number)
  then show ?thesis
    using assms Some
    by (simp add: parse_component_def component_def too_long_def re_search_is_first_run
        py_int_number not_less)
qed

lemma not_digit_h: "\<not> is_digit CHR ''h''" and not_digit_m: "\<not> is_digit CHR ''m''"
  by (simp_all add: is_digit_def)

lemma parse_time_cases:
  "parse_time s = (if too_long ''h'' s \<or> too_long ''min'' s then Inl ValueError
                   else Inr (60 * component ''h'' s + component ''min'' s))"
proof (cases "s = []")
  case True
  then show ?thesis by (simp add: parse_time_def component_def too_long_def)
next
  case False
  have "parse_component ''h'' s
        = (if too_long ''h'' s then Inl ValueError else Inr (component ''h'' s))"
    by (rule parse_component_eq) (simp_all add: not_digit_h)
  moreover have "parse_component ''min'' s
        = (if too_long ''min'' s then Inl ValueError else Inr (component ''min'' s))"
    by (rule parse_component_eq) (simp_all add: not_digit_m)
  ultimately show ?thesis using False by (simp add: parse_time_def)
qed

lemma first_run_run:
  assumes "is_number ds" "rest = [] \<or> \<not> is_digit (hd rest)"
  shows "first_run_before suf (ds @ rest)
         = (if prefix suf rest then Some ds else first_run_before suf rest)"
proof -
  obtain d ds' where ds: "ds = d # ds'" "is_digit d" "list_all is_digit ds'"
    using assms(1) by (cases ds) (auto simp: is_number_def)
  have dw: "dropWhile is_digit (ds' @ rest) = rest"
    using ds(3) assms(2) by (cases rest) (simp_all add: dropWhile_run list_all_iff)
  have tw: "takeWhile is_digit (ds' @ rest) = ds'"
    using ds(3) assms(2) by (rule takeWhile_run)
  show ?thesis using ds by (simp add: dw tw)
qed

lemma run_h_only: "is_number h \<Longrightarrow> first_run_before ''h'' (h @ ''h'') = Some h"
  and run_min_h_only: "is_number h \<Longrightarrow> first_run_before ''min'' (h @ ''h'') = None"
  and run_h_min_only: "is_number m \<Longrightarrow> first_run_before ''h'' (m @ ''min'') = None"
  and run_min_only: "is_number m \<Longrightarrow> first_run_before ''min'' (m @ ''min'') = Some m"
  by (simp_all add: first_run_run not_digit_h not_digit_m)

lemma run_h_both: "is_number h \<Longrightarrow> first_run_before ''h'' (h @ ''h'' @ m @ ''min'') = Some h"
  by (simp add: first_run_run not_digit_h)

lemma run_min_both:
  assumes "is_number h" "is_number m"
  shows "first_run_before ''min'' (h @ ''h'' @ m @ ''min'') = Some m"
proof -
  have "first_run_before ''min'' (h @ ''h'' @ m @ ''min'') = first_run_before ''min'' (''h'' @ m @ ''min'')"
    using assms(1) by (simp add: first_run_run not_digit_h)
  also have "\<dots> = first_run_before ''min'' (m @ ''min'')"
    by (simp add: not_digit_h)
  also have "\<dots> = Some m"
    using assms(2) by (simp add: first_run_run not_digit_m)
  finally show ?thesis .
qed

lemma parse_h_only:
  "is_number h \<Longrightarrow>
   parse_time (h @ ''h'')
   = (if int_max_str_digits < length h then Inl ValueError else Inr (60 * dec_val h))"
  by (simp only: parse_time_cases too_long_def component_def run_h_only run_min_h_only)
     simp

lemma parse_min_only:
  "is_number m \<Longrightarrow>
   parse_time (m @ ''min'')
   = (if int_max_str_digits < length m then Inl ValueError else Inr (dec_val m))"
  by (simp only: parse_time_cases too_long_def component_def run_h_min_only run_min_only)
     simp

lemma parse_both:
  "is_number h \<Longrightarrow> is_number m \<Longrightarrow>
   parse_time (h @ ''h'' @ m @ ''min'')
   = (if int_max_str_digits < length h \<or> int_max_str_digits < length m then Inl ValueError
      else Inr (60 * dec_val h + dec_val m))"
  by (simp only: parse_time_cases too_long_def component_def run_h_both run_min_both)
     simp

subsection \<open>Formatting and reading back\<close>

lemma dec_str_nonneg: "0 \<le> i \<Longrightarrow> dec_str i = str_nat (nat i)"
  by (simp add: dec_str_def)

lemma dec_str_number: "0 \<le> i \<Longrightarrow> is_number (dec_str i)"
  by (simp add: dec_str_nonneg str_nat_number)

lemma dec_val_dec_str: "0 \<le> i \<Longrightarrow> dec_val (dec_str i) = i"
  by (simp add: dec_str_nonneg dec_val_str_nat)

lemma dec_str_length: "0 \<le> i \<Longrightarrow> fits i \<Longrightarrow> \<not> int_max_str_digits < length (dec_str i)"
  by (simp add: dec_str_nonneg fits_def not_less)

lemma format_time_shape:
  assumes "0 \<le> t" "fits (t div 60)"
  shows "format_time t =
    Inr (if t = 0 then ''0min''
         else (if t div 60 = 0 then [] else dec_str (t div 60) @ ''h'')
            @ (if t mod 60 = 0 then [] else dec_str (t mod 60) @ ''min''))"
proof -
  have "0 \<le> t div 60" "0 \<le> t mod 60" using assms by simp_all
  moreover have "t div 60 = 0 \<Longrightarrow> t mod 60 = 0 \<Longrightarrow> t = 0"
    by (metis add.right_neutral mult_zero_right mult_div_mod_eq)
  moreover have "fits (t mod 60)" by (rule fits_small) simp_all
  ultimately show ?thesis
    using assms(2) by (auto simp: format_time_def Let_def py_str_def)
qed

lemma format_time_overflow:
  assumes "0 \<le> t" "\<not> fits (t div 60)"
  shows "format_time t = Inl ValueError"
proof -
  have "fits 0" by (rule fits_small) simp_all
  then have "t div 60 \<noteq> 0" using assms(2) by auto
  moreover have "0 \<le> t div 60" using assms(1) by simp
  ultimately have "0 < t div 60" by simp
  moreover have "t \<noteq> 0" using \<open>t div 60 \<noteq> 0\<close> by auto
  ultimately show ?thesis
    using assms(2) by (simp add: format_time_def Let_def py_str_def)
qed

lemma parse_format:
  assumes "0 \<le> t" "fits (t div 60)"
  shows "parse_time (if t = 0 then ''0min''
                     else (if t div 60 = 0 then [] else dec_str (t div 60) @ ''h'')
                        @ (if t mod 60 = 0 then [] else dec_str (t mod 60) @ ''min''))
         = Inr t"
proof -
  let ?h = "t div 60" and ?m = "t mod 60"
  have h: "0 \<le> ?h" and m: "0 \<le> ?m" using assms by simp_all
  have nh: "is_number (dec_str ?h)" and nm: "is_number (dec_str ?m)"
    using h m by (simp_all add: dec_str_number)
  have fm: "fits ?m" by (rule fits_small) simp_all
  have lh: "\<not> int_max_str_digits < length (dec_str ?h)"
    using h assms(2) by (rule dec_str_length)
  have lm: "\<not> int_max_str_digits < length (dec_str ?m)"
    using m fm by (rule dec_str_length)
  have t: "60 * ?h + ?m = t" by simp
  show ?thesis
  proof (cases "t = 0")
    case True
    have "is_number ''0''" by (simp add: is_number_def is_digit_def)
    from parse_min_only [OF this]
    show ?thesis using True max_digits_pos by (simp add: dec_val_def digit_val_def)
  next
    case nz: False
    show ?thesis
    proof (cases "?h = 0")
      case h0: True
      have "dec_val (dec_str ?m) = t"
        using t h0 m by (simp only: dec_val_dec_str)
      moreover have "?m \<noteq> 0" using nz h0 t by auto
      ultimately show ?thesis
        using parse_min_only [OF nm] lm nz h0 by simp
    next
      case hn: False
      show ?thesis
      proof (cases "?m = 0")
        case m0: True
        have "60 * dec_val (dec_str ?h) = t"
          using t m0 h by (simp only: dec_val_dec_str)
        then show ?thesis
          using parse_h_only [OF nh] lh nz hn m0 by simp
      next
        case mn: False
        have "60 * dec_val (dec_str ?h) + dec_val (dec_str ?m) = t"
          using t h m by (simp only: dec_val_dec_str)
        then show ?thesis
          using parse_both [OF nh nm] lh lm nz hn mn by simp
      qed
    qed
  qed
qed

text \<open>
  Claim C9, as the code has it.  \<open>parse_time\<close> returns 60 times the matched hour
  component plus the matched minute component, each counting 0 when it is absent, and
  the result is never negative, for every string whose matched digit runs have at most
  4300 digits (the limit of \<open>int\<close>); this covers the empty string, a string without
  digits, a string with only one of the components, and every string of at most 4300
  characters.  When a matched run is longer, \<open>int\<close> raises \<open>ValueError\<close> and so does
  \<open>parse_time\<close>.
\<close>

theorem parse_time_returns:
  "parse_time s = (if too_long ''h'' s \<or> too_long ''min'' s then Inl ValueError
                   else Inr (60 * component ''h'' s + component ''min'' s))
   \<and> 0 \<le> component ''h'' s \<and> 0 \<le> component ''min'' s
   \<and> (length s \<le> int_max_str_digits \<longrightarrow>
        parse_time s = Inr (60 * component ''h'' s + component ''min'' s))"
  using parse_time_cases [of s] short_not_too_long [of s]
  by (simp add: component_nonneg)

theorem parse_time_returns_witness:
  "length ''1h12min'' \<le> int_max_str_digits \<and> parse_time ''1h12min'' = Inr 72
   \<and> parse_time ''2h'' = Inr 120 \<and> parse_time ''10min'' = Inr 10
   \<and> parse_time [] = Inr 0 \<and> parse_time ''soon'' = Inr 0
   \<and> parse_time ''3 h 5 min'' = Inr 0 \<and> parse_time ''7h, then 15h and 4min'' = Inr 424"
proof -
  have c: "component ''h'' ''1h12min'' = 1" "component ''min'' ''1h12min'' = 12"
    "component ''h'' ''2h'' = 2" "component ''min'' ''2h'' = 0"
    "component ''h'' ''10min'' = 0" "component ''min'' ''10min'' = 10"
    "component ''h'' [] = 0" "component ''min'' [] = 0"
    "component ''h'' ''soon'' = 0" "component ''min'' ''soon'' = 0"
    "component ''h'' ''3 h 5 min'' = 0" "component ''min'' ''3 h 5 min'' = 0"
    "component ''h'' ''7h, then 15h and 4min'' = 7"
    "component ''min'' ''7h, then 15h and 4min'' = 4"
    by code_simp+
  have l: "length ''1h12min'' \<le> int_max_str_digits" "length ''2h'' \<le> int_max_str_digits"
    "length ''10min'' \<le> int_max_str_digits" "length ([] :: string) \<le> int_max_str_digits"
    "length ''soon'' \<le> int_max_str_digits" "length ''3 h 5 min'' \<le> int_max_str_digits"
    "length ''7h, then 15h and 4min'' \<le> int_max_str_digits"
    by (simp_all add: int_max_str_digits_def)
  note r = parse_time_returns [THEN conjunct2, THEN conjunct2, THEN conjunct2, rule_format]
  from r [OF l(1)] r [OF l(2)] r [OF l(3)] r [OF l(4)] r [OF l(5)] r [OF l(6)] r [OF l(7)]
  have "parse_time ''1h12min'' = Inr 72" "parse_time ''2h'' = Inr 120"
    "parse_time ''10min'' = Inr 10" "parse_time [] = Inr 0" "parse_time ''soon'' = Inr 0"
    "parse_time ''3 h 5 min'' = Inr 0" "parse_time ''7h, then 15h and 4min'' = Inr 424"
    by (simp_all only: c) simp_all
  with l(1) show ?thesis by (intro conjI)
qed

theorem parse_time_raises_counterexample:
  "parse_time (replicate 4301 CHR ''9'' @ ''h'') = Inl ValueError"
proof -
  have "is_number (replicate 4301 CHR ''9'')" by (rule nines_number) simp
  from parse_h_only [OF this] show ?thesis by (simp add: int_max_str_digits_def)
qed

text \<open>
  Claim C2, as the code has it.  For the duration strings \<open><N>h<N>min\<close>, \<open><N>h\<close> and
  \<open><N>min\<close> whose numerals have at most 4300 digits, \<open>parse_time\<close> reads \<open>60 * H + M\<close>,
  \<open>60 * H\<close> and \<open>M\<close> minutes.  When the hours of that total \<open>t\<close> have at most 4300
  digits, \<open>format_time t\<close> prints the hours and the minutes without the component that
  is zero (\<open>0min\<close> when the total is zero) and \<open>parse_time\<close> reads \<open>t\<close> again from it;
  otherwise \<open>format_time t\<close> raises \<open>ValueError\<close>.  \<open>parse_time("0min") = 0\<close> and
  \<open>format_time(0) = "0min"\<close>.
\<close>

theorem duration_round_trip:
  assumes "is_number h" and "is_number m"
    and "length h \<le> int_max_str_digits" and "length m \<le> int_max_str_digits"
  shows "(\<forall>s \<in> {h @ ''h'' @ m @ ''min'', h @ ''h'', m @ ''min''}.
            \<exists>t. parse_time s = Inr t \<and> 0 \<le> t
              \<and> (if fits (t div 60)
                  then \<exists>out. format_time t = Inr out \<and> parse_time out = Inr t
                         \<and> out = (if t = 0 then ''0min''
                                  else (if t div 60 = 0 then [] else dec_str (t div 60) @ ''h'')
                                     @ (if t mod 60 = 0 then []
                                        else dec_str (t mod 60) @ ''min''))
                  else format_time t = Inl ValueError))
         \<and> parse_time (h @ ''h'' @ m @ ''min'') = Inr (60 * dec_val h + dec_val m)
         \<and> parse_time (h @ ''h'') = Inr (60 * dec_val h)
         \<and> parse_time (m @ ''min'') = Inr (dec_val m)
         \<and> parse_time ''0min'' = Inr 0 \<and> format_time 0 = Inr ''0min''"
proof -
  have rt: "0 \<le> t \<and> (if fits (t div 60)
                  then \<exists>out. format_time t = Inr out \<and> parse_time out = Inr t
                         \<and> out = (if t = 0 then ''0min''
                                  else (if t div 60 = 0 then [] else dec_str (t div 60) @ ''h'')
                                     @ (if t mod 60 = 0 then []
                                        else dec_str (t mod 60) @ ''min''))
                  else format_time t = Inl ValueError)" if "0 \<le> t" for t
  proof (cases "fits (t div 60)")
    case True
    show ?thesis
      using that True format_time_shape [OF that True] parse_format [OF that True] by simp
  next
    case False
    show ?thesis using that False format_time_overflow [OF that False] by simp
  qed
  have nh: "0 \<le> dec_val h" and nm: "0 \<le> dec_val m"
    using assms(1,2) by (simp_all add: is_number_def dec_val_nonneg)
  have p1: "parse_time (h @ ''h'' @ m @ ''min'') = Inr (60 * dec_val h + dec_val m)"
    using parse_both [OF assms(1,2)] assms(3,4) by simp
  have p2: "parse_time (h @ ''h'') = Inr (60 * dec_val h)"
    using parse_h_only [OF assms(1)] assms(3) by simp
  have p3: "parse_time (m @ ''min'') = Inr (dec_val m)"
    using parse_min_only [OF assms(2)] assms(4) by simp
  have z: "is_number ''0''" by (simp add: is_number_def is_digit_def)
  have p4: "parse_time ''0min'' = Inr 0"
    using parse_min_only [OF z] max_digits_pos by (simp add: dec_val_def digit_val_def)
  have p5: "format_time 0 = Inr ''0min''" by (simp add: format_time_def)
  have r1: "0 \<le> 60 * dec_val h + dec_val m" and r2: "0 \<le> 60 * dec_val h"
    using nh nm by simp_all
  have e: "\<exists>t. parse_time s = Inr t \<and> 0 \<le> t
              \<and> (if fits (t div 60)
                  then \<exists>out. format_time t = Inr out \<and> parse_time out = Inr t
                         \<and> out = (if t = 0 then ''0min''
                                  else (if t div 60 = 0 then [] else dec_str (t div 60) @ ''h'')
                                     @ (if t mod 60 = 0 then []
                                        else dec_str (t mod 60) @ ''min''))
                  else format_time t = Inl ValueError)"
    if "parse_time s = Inr t0" "0 \<le> t0" for s t0
    using that(1) rt [OF that(2)] by blast
  have ball: "\<forall>s \<in> {h @ ''h'' @ m @ ''min'', h @ ''h'', m @ ''min''}.
            \<exists>t. parse_time s = Inr t \<and> 0 \<le> t
              \<and> (if fits (t div 60)
                  then \<exists>out. format_time t = Inr out \<and> parse_time out = Inr t
                         \<and> out = (if t = 0 then ''0min''
                                  else (if t div 60 = 0 then [] else dec_str (t div 60) @ ''h'')
                                     @ (if t mod 60 = 0 then []
                                        else dec_str (t mod 60) @ ''min''))
                  else format_time t = Inl ValueError)"
  proof (intro ballI)
    fix s assume "s \<in> {h @ ''h'' @ m @ ''min'', h @ ''h'', m @ ''min''}"
    then consider "s = h @ ''h'' @ m @ ''min''" | "s = h @ ''h''" | "s = m @ ''min''"
      by blast
    then show "\<exists>t. parse_time s = Inr t \<and> 0 \<le> t
              \<and> (if fits (t div 60)
                  then \<exists>out. format_time t = Inr out \<and> parse_time out = Inr t
                         \<and> out = (if t = 0 then ''0min''
                                  else (if t div 60 = 0 then [] else dec_str (t div 60) @ ''h'')
                                     @ (if t mod 60 = 0 then []
                                        else dec_str (t mod 60) @ ''min''))
                  else format_time t = Inl ValueError)"
    proof cases
      case 1
      show ?thesis unfolding 1 by (rule e [OF p1 r1])
    next
      case 2
      show ?thesis unfolding 2 by (rule e [OF p2 r2])
    next
      case 3
      show ?thesis unfolding 3 by (rule e [OF p3 nm])
    qed
  qed
  from ball p1 p2 p3 p4 p5 show ?thesis by (intro conjI)
qed

theorem duration_round_trip_witness:
  "is_number ''1'' \<and> is_number ''12''
   \<and> length ''1'' \<le> int_max_str_digits \<and> length ''12'' \<le> int_max_str_digits
   \<and> parse_time ''1h12min'' = Inr 72 \<and> fits (72 div 60)
   \<and> format_time 72 = Inr ''1h12min''
   \<and> parse_time ''1h'' = Inr 60 \<and> format_time 60 = Inr ''1h''
   \<and> parse_time ''12min'' = Inr 12 \<and> format_time 12 = Inr ''12min''
   \<and> parse_time ''0min'' = Inr 0 \<and> format_time 0 = Inr ''0min''"
proof -
  have n1: "is_number ''1''" and n2: "is_number ''12''"
    by (simp_all add: is_number_def is_digit_def)
  have l1: "length ''1'' \<le> int_max_str_digits" and l2: "length ''12'' \<le> int_max_str_digits"
    by (simp_all add: int_max_str_digits_def)
  have v: "dec_val ''1'' = 1" "dec_val ''12'' = 12"
    by (simp_all add: dec_val_def digit_val_def)
  have f: "fits (72 div 60)" "fits (60 div 60)" "fits (12 div 60)"
    by code_simp+
  have d: "dec_str 1 = ''1''" "dec_str 12 = ''12''"
    by code_simp+
  note rt = duration_round_trip [OF n1 n2 l1 l2]
  have p: "parse_time ''1h12min'' = Inr 72" "parse_time ''1h'' = Inr 60"
    "parse_time ''12min'' = Inr 12" "parse_time ''0min'' = Inr 0"
    "format_time 0 = Inr ''0min''"
    using rt by (simp_all add: v)
  have m: "''1h12min'' \<in> {''1'' @ ''h'' @ ''12'' @ ''min'', ''1'' @ ''h'', ''12'' @ ''min''}"
    "''1h'' \<in> {''1'' @ ''h'' @ ''12'' @ ''min'', ''1'' @ ''h'', ''12'' @ ''min''}"
    "''12min'' \<in> {''1'' @ ''h'' @ ''12'' @ ''min'', ''1'' @ ''h'', ''12'' @ ''min''}"
    by simp_all
  note ball = rt [THEN conjunct1]
  from bspec [OF ball m(1)] obtain t1 where t1: "parse_time ''1h12min'' = Inr t1"
    "if fits (t1 div 60)
     then \<exists>out. format_time t1 = Inr out \<and> parse_time out = Inr t1
            \<and> out = (if t1 = 0 then ''0min''
                     else (if t1 div 60 = 0 then [] else dec_str (t1 div 60) @ ''h'')
                        @ (if t1 mod 60 = 0 then [] else dec_str (t1 mod 60) @ ''min''))
     else format_time t1 = Inl ValueError"
    by blast
  from bspec [OF ball m(2)] obtain t2 where t2: "parse_time ''1h'' = Inr t2"
    "if fits (t2 div 60)
     then \<exists>out. format_time t2 = Inr out \<and> parse_time out = Inr t2
            \<and> out = (if t2 = 0 then ''0min''
                     else (if t2 div 60 = 0 then [] else dec_str (t2 div 60) @ ''h'')
                        @ (if t2 mod 60 = 0 then [] else dec_str (t2 mod 60) @ ''min''))
     else format_time t2 = Inl ValueError"
    by blast
  from bspec [OF ball m(3)] obtain t3 where t3: "parse_time ''12min'' = Inr t3"
    "if fits (t3 div 60)
     then \<exists>out. format_time t3 = Inr out \<and> parse_time out = Inr t3
            \<and> out = (if t3 = 0 then ''0min''
                     else (if t3 div 60 = 0 then [] else dec_str (t3 div 60) @ ''h'')
                        @ (if t3 mod 60 = 0 then [] else dec_str (t3 mod 60) @ ''min''))
     else format_time t3 = Inl ValueError"
    by blast
  have "t1 = 72" "t2 = 60" "t3 = 12" using t1(1) t2(1) t3(1) p by simp_all
  then have f1: "format_time 72 = Inr ''1h12min''" and f2: "format_time 60 = Inr ''1h''"
    and f3: "format_time 12 = Inr ''12min''"
    using t1(2) t2(2) t3(2) f by (simp_all add: d)
  show ?thesis using n1 n2 l1 l2 p f(1) f1 f2 f3 by simp
qed

theorem duration_round_trip_counterexample:
  "is_number (replicate 4301 CHR ''9'')
   \<and> parse_time (replicate 4301 CHR ''9'' @ ''min'') = Inl ValueError
   \<and> is_number (replicate 4300 CHR ''9'') \<and> is_number ''60''
   \<and> parse_time (replicate 4300 CHR ''9'' @ ''h'' @ ''60'' @ ''min'') = Inr (60 * 10 ^ 4300)
   \<and> format_time (60 * 10 ^ 4300) = Inl ValueError"
proof -
  have n1: "is_number (replicate 4301 CHR ''9'')" by (rule nines_number) simp
  have n2: "is_number (replicate 4300 CHR ''9'')" by (rule nines_number) simp
  have n3: "is_number ''60''" by (simp add: is_number_def is_digit_def)
  have p1: "parse_time (replicate 4301 CHR ''9'' @ ''min'') = Inl ValueError"
    using parse_min_only [OF n1] by (simp add: int_max_str_digits_def)
  have v: "dec_val ''60'' = 60" by (simp add: dec_val_def digit_val_def)
  have "parse_time (replicate 4300 CHR ''9'' @ ''h'' @ ''60'' @ ''min'')
        = Inr (60 * dec_val (replicate 4300 CHR ''9'') + dec_val ''60'')"
    using parse_both [OF n2 n3] by (simp add: int_max_str_digits_def)
  also have "60 * dec_val (replicate 4300 CHR ''9'') + dec_val ''60'' = 60 * 10 ^ 4300"
    by (simp only: dec_val_nines v) (simp only: right_diff_distrib mult_1_right diff_add_cancel)
  finally have p2: "parse_time (replicate 4300 CHR ''9'' @ ''h'' @ ''60'' @ ''min'')
        = Inr (60 * 10 ^ 4300)" .
  have "int_max_str_digits \<le> 4300" by (simp add: int_max_str_digits_def)
  then have nf: "\<not> fits (10 ^ 4300)" by (rule not_fits_power)
  have dv: "(60 * 10 ^ 4300) div 60 = (10 ^ 4300 :: int)"
    by (rule nonzero_mult_div_cancel_left) simp
  have "(0::int) \<le> 60 * 10 ^ 4300" by (rule mult_nonneg_nonneg) (simp, rule zero_le_power, simp)
  from format_time_overflow [OF this] nf dv
  have p3: "format_time (60 * 10 ^ 4300) = Inl ValueError" by (simp only: not_False_eq_True)
  from n1 p1 n2 n3 p2 p3 show ?thesis by (intro conjI)
qed

section \<open>The Dependency-Check report: severities and counters\<close>

lemma classify_cases:
  "fst (classify c s) =
     (if s \<ge> 9 then CRITICAL else if s \<ge> 7 then HIGH else if s \<ge> 4 then MEDIUM
      else if s > 0 then LOW else UNKNOWN)"
  by (simp add: classify_def)

lemma classify_sum_ok: "sum_ok c \<Longrightarrow> sum_ok (snd (classify c s))"
  by (simp add: classify_def sum_ok_def)

lemma classify_total:
  "total_count (snd (classify c s)) = total_count c + (if fst (classify c s) = UNKNOWN then 0 else 1)"
  by (simp add: classify_def)

lemma detail_row_fields:
  "detail_row pn dn dp sev j vuln = Inr row \<Longrightarrow> projectName row = pn \<and> severity row = sev"
  by (auto simp: detail_row_def split: sum.splits)

lemma step_ok_same: "step_ok pn st (st, r)"
  by (cases st) (simp add: step_ok_def counted_def)

lemma step_ok_then:
  assumes "step_ok pn st (st1, None)" "step_ok pn st1 res"
  shows "step_ok pn st res"
proof -
  obtain c d where st: "st = (c, d)" by (cases st)
  obtain c1 d1 where st1: "st1 = (c1, d1)" by (cases st1)
  obtain c2 d2 r where res: "res = ((c2, d2), r)" by (cases res) auto
  from assms(1) obtain n1 where n1: "d1 = d @ n1" "list_all (\<lambda>f. projectName f = pn) n1"
    "total_count c1 - total_count c = counted n1" and i1: "sum_ok c \<longrightarrow> sum_ok c1"
    by (auto simp: step_ok_def st st1)
  from assms(2) obtain n2 where n2: "d2 = d1 @ n2" "list_all (\<lambda>f. projectName f = pn) n2"
    "counted n2 \<le> total_count c2 - total_count c1" "total_count c2 - total_count c1 \<le> counted n2 + 1"
    "r = None \<longrightarrow> total_count c2 - total_count c1 = counted n2" and i2: "sum_ok c1 \<longrightarrow> sum_ok c2"
    by (auto simp: step_ok_def st1 res)
  have cnt: "counted (n1 @ n2) = counted n1 + counted n2" by (simp add: counted_def)
  have "d2 = d @ (n1 @ n2)" using n1 n2 by simp
  moreover have "list_all (\<lambda>f. projectName f = pn) (n1 @ n2)" using n1 n2 by simp
  moreover have "counted (n1 @ n2) \<le> total_count c2 - total_count c"
    "total_count c2 - total_count c \<le> counted (n1 @ n2) + 1"
    "r = None \<longrightarrow> total_count c2 - total_count c = counted (n1 @ n2)"
    using n1(3) n2(3,4,5) cnt by auto
  ultimately show ?thesis using i1 i2 unfolding step_ok_def st res
    by (simp only: fst_conv snd_conv prod.case) blast
qed

lemma process_vuln_ok: "step_ok pn st (process_vuln pn dn dp st vuln)"
proof (cases "cvss_score_of vuln")
  case (Inl e)
  then show ?thesis by (simp add: process_vuln_def step_ok_same)
next
  case (Inr j)
  show ?thesis
  proof (cases "py_num j")
    case (Inl e)
    then show ?thesis using Inr by (simp add: process_vuln_def step_ok_same)
  next
    case s: (Inr s)
    obtain c d where st: "st = (c, d)" by (cases st)
    let ?sev = "fst (classify c s)" and ?c = "snd (classify c s)"
    have tot: "total_count ?c = total_count c + (if ?sev = UNKNOWN then 0 else 1)"
      by (rule classify_total)
    have inv: "sum_ok c \<longrightarrow> sum_ok ?c" by (simp add: classify_sum_ok)
    show ?thesis
    proof (cases "detail_row pn dn dp ?sev j vuln")
      case (Inl e)
      then have r: "process_vuln pn dn dp (c, d) vuln = ((?c, d), Some e)"
        using Inr s by (simp add: process_vuln_def split_beta)
      have "\<exists>new. d = d @ new \<and> list_all (\<lambda>f. projectName f = pn) new
                \<and> counted new \<le> total_count ?c - total_count c
                \<and> total_count ?c - total_count c \<le> counted new + 1"
        using tot by (intro exI [of _ "[]"]) (simp add: counted_def)
      then show ?thesis using inv unfolding st r step_ok_def by simp
    next
      case row: (Inr row)
      then have r: "process_vuln pn dn dp (c, d) vuln = ((?c, d @ [row]), None)"
        using Inr s by (simp add: process_vuln_def split_beta)
      from detail_row_fields [OF row] have f: "projectName row = pn" "severity row = ?sev" by simp_all
      have "counted [row] = total_count ?c - total_count c"
        using tot f by (simp add: counted_def)
      then have "\<exists>new. d @ [row] = d @ new \<and> list_all (\<lambda>f. projectName f = pn) new
                \<and> counted new \<le> total_count ?c - total_count c
                \<and> total_count ?c - total_count c \<le> counted new + 1
                \<and> total_count ?c - total_count c = counted new"
        using f by (intro exI [of _ "[row]"]) simp
      then show ?thesis using inv unfolding st r step_ok_def by simp
    qed
  qed
qed

lemma process_vulns_ok: "step_ok pn st (process_vulns pn dn dp st vulns)"
proof (induction vulns arbitrary: st)
  case Nil
  then show ?case by (simp add: step_ok_same)
next
  case (Cons v vs)
  obtain st1 r where r: "process_vuln pn dn dp st v = (st1, r)" by (cases "process_vuln pn dn dp st v")
  have ok: "step_ok pn st (st1, r)" using process_vuln_ok [of pn st dn dp v] r by simp
  show ?case
  proof (cases r)
    case None
    then show ?thesis using r ok Cons.IH [of st1] by (auto intro: step_ok_then)
  next
    case (Some e)
    then show ?thesis using r ok by simp
  qed
qed

lemma process_dependency_ok: "step_ok pn st (process_dependency pn st dep)"
  by (simp add: process_dependency_def step_ok_same process_vulns_ok split: sum.splits)

lemma process_dependencies_ok: "step_ok pn st (process_dependencies pn st deps)"
proof (induction deps arbitrary: st)
  case Nil
  then show ?case by (simp add: step_ok_same)
next
  case (Cons d ds)
  obtain st1 r where r: "process_dependency pn st d = (st1, r)" by (cases "process_dependency pn st d")
  have ok: "step_ok pn st (st1, r)" using process_dependency_ok [of pn st d] r by simp
  show ?case
  proof (cases r)
    case None
    then show ?thesis using r ok Cons.IH [of st1] by (auto intro: step_ok_then)
  next
    case (Some e)
    then show ?thesis using r ok by simp
  qed
qed

lemma scan_body_ok: "step_ok pn (zero_counters, detailed) (scan_body pn scan detailed)"
  by (simp add: scan_body_def step_ok_same process_dependencies_ok split: sum.splits)

text \<open>
  Claim C1.  For every CVSS score \<open>s\<close> that reaches the severity derivation of
  \<open>process_scan_results\<close>, the severity is CRITICAL iff \<open>s \<ge> 9.0\<close>, HIGH iff
  \<open>7.0 \<le> s < 9.0\<close>, MEDIUM iff \<open>4.0 \<le> s < 7.0\<close>, LOW iff \<open>0 < s < 4.0\<close> and UNKNOWN iff
  \<open>s = 0\<close>; a score on a threshold falls in the higher bucket.  CVSS scores are not
  negative; the derivation gives UNKNOWN exactly for \<open>s \<le> 0\<close>.
\<close>

theorem severity_thresholds:
  "(fst (classify c s) = CRITICAL \<longleftrightarrow> 9 \<le> s)
   \<and> (fst (classify c s) = HIGH \<longleftrightarrow> 7 \<le> s \<and> s < 9)
   \<and> (fst (classify c s) = MEDIUM \<longleftrightarrow> 4 \<le> s \<and> s < 7)
   \<and> (fst (classify c s) = LOW \<longleftrightarrow> 0 < s \<and> s < 4)
   \<and> (fst (classify c s) = UNKNOWN \<longleftrightarrow> s \<le> 0)
   \<and> (0 \<le> s \<longrightarrow> (fst (classify c s) = UNKNOWN \<longleftrightarrow> s = 0))
   \<and> fst (classify c 9) = CRITICAL \<and> fst (classify c 7) = HIGH
   \<and> fst (classify c 4) = MEDIUM"
  by (auto simp: classify_cases)

theorem severity_thresholds_witness:
  "(0::rat) \<le> 0 \<and> fst (classify zero_counters 0) = UNKNOWN
   \<and> fst (classify zero_counters (39 / 10)) = LOW"
  using severity_thresholds [of zero_counters 0] severity_thresholds [of zero_counters "39 / 10"]
  by simp

text \<open>
  Claim C3, as the code has it.  Every call of \<open>process_scan_results\<close> appends one
  summary row for the project; its counters are non-negative integers; the four
  per-severity counters sum to \<open>totalVulnerabilities\<close>; and when the report is processed
  without an exception this sum is the number of findings appended to
  \<open>detailed_data\<close> for the project whose severity is not UNKNOWN.  A finding of
  severity UNKNOWN is appended to \<open>detailed_data\<close> and counted by no counter; an
  exception between a count and its append leaves the total one above that number.
\<close>

theorem summary_counts:
  "\<exists>row new.
     process_scan_results pn scan summary detailed = (summary @ [row], detailed @ new)
     \<and> s_projectName row = pn
     \<and> list_all (\<lambda>f. projectName f = pn) new
     \<and> 0 \<le> criticalSeverityCount row \<and> 0 \<le> highSeverityCount row
     \<and> 0 \<le> mediumSeverityCount row \<and> 0 \<le> lowSeverityCount row
     \<and> 0 \<le> totalVulnerabilities row
     \<and> criticalSeverityCount row + highSeverityCount row + mediumSeverityCount row
         + lowSeverityCount row = totalVulnerabilities row
     \<and> counted new \<le> totalVulnerabilities row
     \<and> totalVulnerabilities row \<le> counted new + 1
     \<and> (scan_error pn scan detailed = None \<longrightarrow> totalVulnerabilities row = counted new)"
proof (cases "truthy scan")
  case False
  then show ?thesis
    by (intro exI [of _ "summary_of pn zero_counters"] exI [of _ "[]"])
       (simp add: process_scan_results_def summary_of_def zero_counters_def counted_def)
next
  case True
  obtain c d r where b: "scan_body pn scan detailed = ((c, d), r)"
    by (cases "scan_body pn scan detailed") auto
  have z: "sum_ok zero_counters" "total_count zero_counters = 0"
    by (simp_all add: sum_ok_def zero_counters_def)
  from scan_body_ok [of pn detailed scan] b z
  obtain new where new: "d = detailed @ new" "list_all (\<lambda>f. projectName f = pn) new"
    "counted new \<le> total_count c" "total_count c \<le> counted new + 1"
    "r = None \<longrightarrow> total_count c = counted new" and ok: "sum_ok c"
    by (auto simp: step_ok_def)
  have "process_scan_results pn scan summary detailed = (summary @ [summary_of pn c], detailed @ new)"
    using True b new(1) by (simp add: process_scan_results_def)
  moreover have "scan_error pn scan detailed = r"
    using True b by (simp add: scan_error_def)
  moreover have "0 \<le> total_count c" using ok by (simp add: sum_ok_def)
  ultimately show ?thesis using new ok
    by (intro exI [of _ "summary_of pn c"] exI [of _ new]) (simp add: summary_of_def sum_ok_def)
qed

theorem summary_counts_witness:
  "scan_error ''demo''
     (JObj [(''dependencies'', JArr [JObj [(''fileName'', JStr ''a.jar''),
        (''vulnerabilities'', JArr [
           JObj [(''name'', JStr ''CVE-1''), (''cvssv3'', JObj [(''baseScore'', JNum 9)])],
           JObj [(''name'', JStr ''CVE-2'')]])]])]) [] = None
   \<and> fst (process_scan_results ''demo''
     (JObj [(''dependencies'', JArr [JObj [(''fileName'', JStr ''a.jar''),
        (''vulnerabilities'', JArr [
           JObj [(''name'', JStr ''CVE-1''), (''cvssv3'', JObj [(''baseScore'', JNum 9)])],
           JObj [(''name'', JStr ''CVE-2'')]])]])]) [] [])
      = [\<lparr>s_projectName = ''demo'', criticalSeverityCount = 1, highSeverityCount = 0,
           mediumSeverityCount = 0, lowSeverityCount = 0, totalVulnerabilities = 1\<rparr>]
   \<and> counted (snd (process_scan_results ''demo''
     (JObj [(''dependencies'', JArr [JObj [(''fileName'', JStr ''a.jar''),
        (''vulnerabilities'', JArr [
           JObj [(''name'', JStr ''CVE-1''), (''cvssv3'', JObj [(''baseScore'', JNum 9)])],
           JObj [(''name'', JStr ''CVE-2'')]])]])]) [] [])) = 1"
proof -
  let ?report = "(JObj [(''dependencies'', JArr [JObj [(''fileName'', JStr ''a.jar''),
        (''vulnerabilities'', JArr [
           JObj [(''name'', JStr ''CVE-1''), (''cvssv3'', JObj [(''baseScore'', JNum 9)])],
           JObj [(''name'', JStr ''CVE-2'')]])]])])"
  have "scan_error ''demo'' ?report [] = None" by code_simp
  moreover have "fst (process_scan_results ''demo'' ?report [] [])
      = [\<lparr>s_projectName = ''demo'', criticalSeverityCount = 1, highSeverityCount = 0,
           mediumSeverityCount = 0, lowSeverityCount = 0, totalVulnerabilities = 1\<rparr>]"
    by code_simp
  ultimately show ?thesis
    using summary_counts [of "''demo''" ?report "[]" "[]"] by auto
qed

text \<open>
  A report with one vulnerability that carries no CVSS score: the finding is appended to
  \<open>detailed_data\<close> with severity UNKNOWN, and every counter of the summary row is 0, so
  the counters do not sum to the number of findings.
\<close>

theorem summary_counts_counterexample:
  "fst (process_scan_results ''demo''
     (JObj [(''dependencies'', JArr [JObj [(''fileName'', JStr ''a.jar''),
        (''vulnerabilities'', JArr [JObj [(''name'', JStr ''CVE-2'')]])]])]) [] [])
     = [\<lparr>s_projectName = ''demo'', criticalSeverityCount = 0, highSeverityCount = 0,
          mediumSeverityCount = 0, lowSeverityCount = 0, totalVulnerabilities = 0\<rparr>]
   \<and> length (snd (process_scan_results ''demo''
     (JObj [(''dependencies'', JArr [JObj [(''fileName'', JStr ''a.jar''),
        (''vulnerabilities'', JArr [JObj [(''name'', JStr ''CVE-2'')]])]])]) [] [])) = 1"
  by code_simp

section \<open>The batch of rq2script.py\<close>

lemma main_loop_step:
  "main_loop (e # es) (data, skipped) =
     (if is_dir e \<and> has_git e
      then (case outcome e of
              Some info \<Rightarrow> main_loop es (data @ [info], skipped)
            | None \<Rightarrow> main_loop es (data, skipped @ [entry_name e]))
      else main_loop es (data, skipped))"
  by (simp add: outcome_def)

lemma main_loop_eq:
  "main_loop es (data, skipped) =
     (data @ List.map_filter outcome (git_projects es),
      skipped @ map entry_name (filter (\<lambda>e. outcome e = None) (git_projects es)))"
proof (induction es arbitrary: data skipped)
  case Nil
  then show ?case by (simp add: git_projects_def)
next
  case (Cons e es)
  show ?case
  proof (cases "is_dir e \<and> has_git e")
    case False
    then have "git_projects (e # es) = git_projects es" by (simp add: git_projects_def)
    then show ?thesis using False Cons [of data skipped]
      by (auto simp: main_loop_step simp del: main_loop.simps)
  next
    case True
    then have g: "git_projects (e # es) = e # git_projects es" by (simp add: git_projects_def)
    show ?thesis
    proof (cases "outcome e")
      case None
      then show ?thesis using True Cons [of data "skipped @ [entry_name e]"]
        by (simp add: g main_loop_step del: main_loop.simps)
    next
      case (Some info)
      then show ?thesis using True Cons [of "data @ [info]" skipped]
        by (simp add: g main_loop_step del: main_loop.simps)
    qed
  qed
qed

lemma outcome_project: "outcome e = Some info \<Longrightarrow> project info = entry_name e"
  by (auto simp: outcome_def process_with_timeout_def process_project_def
      split: if_splits sum.splits prod.splits)

lemma map_filter_project:
  "map project (List.map_filter outcome ps)
   = map entry_name (filter (\<lambda>e. outcome e \<noteq> None) ps)"
  by (induction ps) (auto simp: outcome_project split: option.splits)

lemma length_map_filter:
  "length (List.map_filter f xs) = length xs - length (filter (\<lambda>x. f x = None) xs)"
proof (induction xs)
  case Nil
  then show ?case by simp
next
  case (Cons x xs)
  have "length (filter (\<lambda>x. f x = None) xs) \<le> length xs" by simp
  then show ?case using Cons by (cases "f x") (simp_all add: Suc_diff_le)
qed

text \<open>
  Claim C4, as the code has it.  Of the \<open>N\<close> git projects that \<open>main\<close> enumerates,
  the \<open>k\<close> that time out or raise (\<open>process_with_timeout\<close> gives \<open>None\<close>) are the
  names of \<open>skipped_projects\<close>, in order, and the other \<open>N - k\<close> give the rows of
  \<open>project_data\<close>, one each, in order: no failure stops the loop.  The CSV is written
  with these rows only when there is one (\<open>k < N\<close>), and \<open>skipped_projects.txt\<close>
  only when a project was skipped (\<open>0 < k\<close>); otherwise the file is not written.
\<close>

theorem batch_resilience:
  "project_data (main listing) = List.map_filter outcome (git_projects listing)
   \<and> skipped_projects (main listing)
       = map entry_name (filter (\<lambda>e. outcome e = None) (git_projects listing))
   \<and> map project (project_data (main listing))
       = map entry_name (filter (\<lambda>e. outcome e \<noteq> None) (git_projects listing))
   \<and> length (project_data (main listing))
       = length (git_projects listing) - length (skipped_projects (main listing))
   \<and> output_csv (main listing)
       = (if length (skipped_projects (main listing)) < length (git_projects listing)
          then Some (project_data (main listing)) else None)
   \<and> skipped_file (main listing)
       = (if 0 < length (skipped_projects (main listing))
          then Some (skipped_projects (main listing)) else None)"
proof -
  let ?ps = "git_projects listing"
  let ?bad = "filter (\<lambda>e. outcome e = None) ?ps"
  have d: "project_data (main listing) = List.map_filter outcome ?ps"
    and s: "skipped_projects (main listing) = map entry_name ?bad"
    by (simp_all add: main_def main_loop_eq)
  have l: "length (project_data (main listing)) = length ?ps - length ?bad"
    by (simp add: d length_map_filter)
  have le: "length ?bad \<le> length ?ps" by simp
  have c: "output_csv (main listing)
       = (if project_data (main listing) \<noteq> [] then Some (project_data (main listing)) else None)"
    and f: "skipped_file (main listing)
       = (if skipped_projects (main listing) \<noteq> [] then Some (skipped_projects (main listing)) else None)"
    by (simp_all add: main_def split: prod.splits)
  have "project_data (main listing) \<noteq> [] \<longleftrightarrow> length ?bad < length ?ps"
    using l le by (metis length_greater_0_conv zero_less_diff)
  then show ?thesis using d s l c f by (simp add: map_filter_project)
qed

text \<open>
  One git project, which times out: \<open>N = k = 1\<close>, and no CSV is written, rather than
  one with \<open>N - k = 0\<close> rows.
\<close>

theorem batch_resilience_counterexample:
  "length (git_projects
      [\<lparr>entry_name = ''p1'', is_dir = True, has_git = True,
        gitdir = \<lparr>replies = [], within_timeout = False\<rparr>\<rparr>]) = 1
   \<and> skipped_projects (main
      [\<lparr>entry_name = ''p1'', is_dir = True, has_git = True,
        gitdir = \<lparr>replies = [], within_timeout = False\<rparr>\<rparr>]) = [''p1'']
   \<and> output_csv (main
      [\<lparr>entry_name = ''p1'', is_dir = True, has_git = True,
        gitdir = \<lparr>replies = [], within_timeout = False\<rparr>\<rparr>]) = None"
  by (simp add: main_def git_projects_def process_with_timeout_def)

text \<open>
  A project whose git commands exit with an error is not skipped: both measurements
  fall back to 0 and the project gets a row.
\<close>

lemma git_failure_yields_row:
  "process_project
     [(commit_frequency_cmd,
       Inr \<lparr>returncode = 128, stdout = [], stderr = ''fatal: not a git repository''\<rparr>),
      (code_churn_cmd,
       Inr \<lparr>returncode = 128, stdout = [], stderr = ''fatal: not a git repository''\<rparr>)]
     ''p2''
   = Some \<lparr>project = ''p2'', avg_commits_per_day = 0, avg_lines_added_per_commit = 0,
           avg_lines_deleted_per_commit = 0\<rparr>"
  by code_simp

text \<open>
  Three commits in the period, and two commits with the changes of three files, one of
  them binary.
\<close>

lemma measurements_example:
  "process_project
     [(commit_frequency_cmd,
       Inr \<lparr>returncode = 0,
            stdout = ''2024-03-01'' @ [CHR 0x0A] @ ''2024-03-01'' @ [CHR 0x0A] @ ''2024-02-27'',
            stderr = []\<rparr>),
      (code_churn_cmd,
       Inr \<lparr>returncode = 0,
            stdout = ''0123456789abcdef0123456789abcdef01234567'' @ [CHR 0x0A]
                     @ ''3'' @ [CHR 0x09] @ ''1'' @ [CHR 0x09] @ ''a.py'' @ [CHR 0x0A]
                     @ ''-'' @ [CHR 0x09] @ ''-'' @ [CHR 0x09] @ ''logo.png'' @ [CHR 0x0A]
                     @ [CHR 0x0A]
                     @ ''89abcdef0123456789abcdef0123456789abcdef'' @ [CHR 0x0A]
                     @ ''1'' @ [CHR 0x09] @ ''0'' @ [CHR 0x09] @ ''b.py'',
            stderr = []\<rparr>)]
     ''p3''
   = Some \<lparr>project = ''p3'', avg_commits_per_day = 3 / 1097, avg_lines_added_per_commit = 2,
           avg_lines_deleted_per_commit = 1 / 2\<rparr>"
  by code_simp

section \<open>The request loop of github_spider.py\<close>

lemma backs_offD:
  "backs_off server clock sleeps k \<Longrightarrow>
   \<exists>r t secs. server k = Inr r \<and> throttling r \<and> reset_time r = Inr t
     \<and> sleep_time t (clock k) = Inr secs \<and> \<not> sleep_overflows secs \<and> sleeps k secs
     \<and> nap server clock k = secs"
  by (cases "server k")
     (auto simp: backs_off_def can_wait_def wait_for_def nap_def split: sum.splits)

lemma retry_step:
  assumes "backs_off server clock sleeps i"
  shows "request_loop server clock sleeps url params i tr
         = request_loop server clock sleeps url params (Suc i)
             (tr @ [Get url params, Sleep (nap server clock i)])"
proof -
  from backs_offD [OF assms] obtain r t secs where
    "server i = Inr r" "throttling r" "reset_time r = Inr t"
    "sleep_time t (clock i) = Inr secs" "\<not> sleep_overflows secs" "sleeps i secs"
    "nap server clock i = secs"
    by blast
  then show ?thesis
    by (subst request_loop.simps) (simp add: throttling_def)
qed

lemma retries:
  "(\<forall>k<n. backs_off server clock sleeps (i + k)) \<Longrightarrow>
   request_loop server clock sleeps url params i tr
   = request_loop server clock sleeps url params (i + n)
       (tr @ retry_trace server clock url params i n)"
proof (induction n arbitrary: i tr)
  case 0
  then show ?case by simp
next
  case (Suc n)
  from Suc.prems [rule_format, of 0] have b: "backs_off server clock sleeps i" by simp
  have "\<forall>k<n. backs_off server clock sleeps (Suc i + k)"
    using Suc.prems by (metis Suc_less_eq add_Suc_shift)
  from Suc.IH [OF this, of "tr @ [Get url params, Sleep (nap server clock i)]"]
  show ?case using retry_step [OF b, of url params tr] by simp
qed

lemma ok_step:
  assumes "server i = Inr r" "status_code r = 200" "json_body r = Inr j"
  shows "request_loop server clock sleeps url params i tr = Some (j, tr @ [Get url params])"
  using assms by (subst request_loop.simps) simp

lemma limit_step:
  assumes "server i = Inr r" "window_limit r"
  shows "request_loop server clock sleeps url params i tr = Some (JNull, tr @ [Get url params])"
  using assms by (subst request_loop.simps) (simp add: window_limit_def)

lemma stop_step:
  assumes "server i = Inr r" "throttling r" "\<not> can_wait sleeps i r (clock i)"
  shows "request_loop server clock sleeps url params i tr = Some (JNull, tr @ [Get url params])"
  using assms
  by (subst request_loop.simps)
     (auto simp: throttling_def can_wait_def wait_for_def split: sum.splits)

lemma returns_not_throttled:
  assumes "request_loop server clock sleeps url params i tr = Some y"
  shows "\<exists>k. \<not> backs_off server clock sleeps k"
proof (rule request_loop.raw_induct
    [where P = "\<lambda>server clock sleeps url params i tr y. \<exists>k. \<not> backs_off server clock sleeps k",
     OF _ assms], goal_cases)
  case (1 loop server clock sleeps url params i tr y)
  show ?case
  proof (rule ccontr)
    assume "\<not> ?thesis"
    then have all: "\<And>k. backs_off server clock sleeps k" by simp
    from backs_offD [OF all [of i]] obtain r t secs where
      r: "server i = Inr r" "throttling r" "reset_time r = Inr t"
      "sleep_time t (clock i) = Inr secs" "\<not> sleep_overflows secs" "sleeps i secs"
      by blast
    with 1(2) have "loop server clock sleeps url params (Suc i)
        (tr @ [Get url params, Sleep secs]) = Some y"
      by (simp add: throttling_def)
    from 1(1) [OF this] all show False by blast
  qed
qed

lemma never_returns:
  assumes "\<forall>k. backs_off server clock sleeps k"
  shows "request_loop server clock sleeps url params i tr = None"
proof (cases "request_loop server clock sleeps url params i tr")
  case None
  then show ?thesis .
next
  case (Some y)
  from returns_not_throttled [OF this] assms show ?thesis by blast
qed

lemma sleep_covers:
  "sleep_time t now = Inr secs \<Longrightarrow> secs = max (of_int t - now) 0 + 1 \<and> of_int t < now + secs"
  by (auto simp: sleep_time_def max_def split: if_splits)

text \<open>
  Claim C5, as the code has it.  A throttling response is a 403 whose body says that the
  rate limit is exceeded.  When the first \<open>n\<close> responses to a request are throttling
  responses whose wait can be slept (the reset header is absent or reads as an integer,
  and \<open>time.sleep\<close> accepts the wait), \<open>_make_request\<close> sleeps after each of them until
  after the reset time and sends the same request again, for every \<open>n\<close>: there is no
  cap on the retries, and when every response is such a response the call never
  returns.  When the next response is a 200 its JSON is returned; when it is the 422
  response of the 1000-result window, \<open>None\<close> is returned, and no exception is raised;
  when it is a throttling response whose wait cannot be slept (a reset header that is
  not an integer, a wait that \<open>time.sleep\<close> refuses), \<open>None\<close> is returned at once, with
  no sleep and no retry.
\<close>

theorem make_request_backoff:
  assumes "throttled_until server clock sleeps n"
  shows "(\<forall>k<n. \<exists>r t. server k = Inr r \<and> throttling r \<and> reset_time r = Inr t
              \<and> nap server clock k = max (of_int t - clock k) 0 + 1
              \<and> of_int t < clock k + nap server clock k)
       \<and> (\<forall>r j. server n = Inr r \<and> status_code r = 200 \<and> json_body r = Inr j \<longrightarrow>
              make_request server clock sleeps endpoint params
              = Some (j, retry_trace server clock (BASE_URL @ ''/'' @ endpoint) params 0 n
                          @ [Get (BASE_URL @ ''/'' @ endpoint) params]))
       \<and> (\<forall>r. server n = Inr r \<and> window_limit r \<longrightarrow>
              make_request server clock sleeps endpoint params
              = Some (JNull, retry_trace server clock (BASE_URL @ ''/'' @ endpoint) params 0 n
                              @ [Get (BASE_URL @ ''/'' @ endpoint) params]))
       \<and> (\<forall>r. server n = Inr r \<and> throttling r \<and> \<not> can_wait sleeps n r (clock n) \<longrightarrow>
              make_request server clock sleeps endpoint params
              = Some (JNull, retry_trace server clock (BASE_URL @ ''/'' @ endpoint) params 0 n
                              @ [Get (BASE_URL @ ''/'' @ endpoint) params]))
       \<and> ((\<forall>m. throttled_until server clock sleeps m) \<longrightarrow>
              make_request server clock sleeps endpoint params = None)"
proof -
  let ?url = "BASE_URL @ ''/'' @ endpoint"
  have "\<forall>k<n. backs_off server clock sleeps (0 + k)"
    using assms by (simp add: throttled_until_def)
  from retries [OF this, of ?url params "[]"]
  have run: "make_request server clock sleeps endpoint params
             = request_loop server clock sleeps ?url params n
                 (retry_trace server clock ?url params 0 n)"
    by (simp add: make_request_def)
  have a: "\<exists>r t. server k = Inr r \<and> throttling r \<and> reset_time r = Inr t
              \<and> nap server clock k = max (of_int t - clock k) 0 + 1
              \<and> of_int t < clock k + nap server clock k" if "k < n" for k
  proof -
    have "backs_off server clock sleeps k" using assms that by (simp add: throttled_until_def)
    from backs_offD [OF this] obtain r t secs where
      "server k = Inr r" "throttling r" "reset_time r = Inr t"
      "sleep_time t (clock k) = Inr secs" "nap server clock k = secs"
      by blast
    then show ?thesis using sleep_covers [of t "clock k" secs] by simp
  qed
  have b: "make_request server clock sleeps endpoint params
           = Some (j, retry_trace server clock ?url params 0 n @ [Get ?url params])"
    if "server n = Inr r" "status_code r = 200" "json_body r = Inr j" for r j
    using run ok_step [of server n r j, OF that] by simp
  have c: "make_request server clock sleeps endpoint params
           = Some (JNull, retry_trace server clock ?url params 0 n @ [Get ?url params])"
    if "server n = Inr r" "window_limit r" for r
    using run limit_step [of server n r, OF that] by simp
  have s: "make_request server clock sleeps endpoint params
           = Some (JNull, retry_trace server clock ?url params 0 n @ [Get ?url params])"
    if "server n = Inr r" "throttling r" "\<not> can_wait sleeps n r (clock n)" for r
    using run stop_step [of server n r sleeps clock, OF that] by simp
  have d: "make_request server clock sleeps endpoint params = None"
    if "\<forall>m. throttled_until server clock sleeps m"
  proof -
    have "\<forall>k. backs_off server clock sleeps k"
      using that by (auto simp: throttled_until_def)
    then show ?thesis by (simp add: make_request_def never_returns)
  qed
  show ?thesis using a b c s d by blast
qed

theorem make_request_backoff_witness:
  "throttled_until
     (serving [Inr \<lparr>status_code = 403, resp_text = ''API Rate Limit Exceeded'',
                    rate_limit_reset = Some ''1700000100'', json_body = Inl ValueError\<rparr>,
               Inr \<lparr>status_code = 403, resp_text = ''API Rate Limit Exceeded'',
                    rate_limit_reset = None, json_body = Inl ValueError\<rparr>]
        (Inr \<lparr>status_code = 200, resp_text = ''{}'', rate_limit_reset = None,
              json_body = Inr (JObj [])\<rparr>))
     (ticking 1700000000) any_sleep 2
   \<and> make_request
     (serving [Inr \<lparr>status_code = 403, resp_text = ''API Rate Limit Exceeded'',
                    rate_limit_reset = Some ''1700000100'', json_body = Inl ValueError\<rparr>,
               Inr \<lparr>status_code = 403, resp_text = ''API Rate Limit Exceeded'',
                    rate_limit_reset = None, json_body = Inl ValueError\<rparr>]
        (Inr \<lparr>status_code = 200, resp_text = ''{}'', rate_limit_reset = None,
              json_body = Inr (JObj [])\<rparr>))
     (ticking 1700000000) any_sleep ''rate_limit'' None
     = Some (JObj [],
         [Get ''https://api.github.com/rate_limit'' None, Sleep 101,
          Get ''https://api.github.com/rate_limit'' None, Sleep 1,
          Get ''https://api.github.com/rate_limit'' None])
   \<and> make_request
     (serving [Inr \<lparr>status_code = 403, resp_text = ''API Rate Limit Exceeded'',
                    rate_limit_reset = Some ''1700000100'', json_body = Inl ValueError\<rparr>]
        (Inr \<lparr>status_code = 422,
              resp_text = ''Only the first 1000 search results are available'',
              rate_limit_reset = None, json_body = Inr (JObj [])\<rparr>))
     (ticking 1700000000) any_sleep ''rate_limit'' None
     = Some (JNull,
         [Get ''https://api.github.com/rate_limit'' None, Sleep 101,
          Get ''https://api.github.com/rate_limit'' None])
   \<and> make_request
     (serving [Inr \<lparr>status_code = 403, resp_text = ''API Rate Limit Exceeded'',
                    rate_limit_reset = Some ''1700000100'', json_body = Inl ValueError\<rparr>]
        (Inr \<lparr>status_code = 403, resp_text = ''API Rate Limit Exceeded'',
              rate_limit_reset = Some ''tomorrow'', json_body = Inl ValueError\<rparr>))
     (ticking 1700000000) any_sleep ''rate_limit'' None
     = Some (JNull,
         [Get ''https://api.github.com/rate_limit'' None, Sleep 101,
          Get ''https://api.github.com/rate_limit'' None])
   \<and> make_request
     (serving []
        (Inr \<lparr>status_code = 403, resp_text = ''API Rate Limit Exceeded'',
              rate_limit_reset = Some ''10923372000'', json_body = Inl ValueError\<rparr>))
     (ticking 1700000000) (sleeps_below 9223300000) ''rate_limit'' None
     = Some (JNull, [Get ''https://api.github.com/rate_limit'' None])
   \<and> make_request
     (serving []
        (Inr \<lparr>status_code = 403, resp_text = ''API Rate Limit Exceeded'',
              rate_limit_reset = Some ''1700000100'', json_body = Inl ValueError\<rparr>))
     (ticking 1700000000) any_sleep ''rate_limit'' None = None"
proof -
  let ?far = "\<lparr>status_code = 403, resp_text = ''API Rate Limit Exceeded'',
                    rate_limit_reset = Some ''10923372000'', json_body = Inl ValueError\<rparr>"
  let ?distant = "serving [] (Inr ?far) :: nat \<Rightarrow> pyerr + response"
  let ?thr = "\<lparr>status_code = 403, resp_text = ''API Rate Limit Exceeded'',
                    rate_limit_reset = Some ''1700000100'', json_body = Inl ValueError\<rparr>"
  let ?plain = "\<lparr>status_code = 403, resp_text = ''API Rate Limit Exceeded'',
                    rate_limit_reset = None, json_body = Inl ValueError\<rparr>"
  let ?bad = "\<lparr>status_code = 403, resp_text = ''API Rate Limit Exceeded'',
                    rate_limit_reset = Some ''tomorrow'', json_body = Inl ValueError\<rparr>"
  let ?ok = "\<lparr>status_code = 200, resp_text = ''{}'', rate_limit_reset = None,
                    json_body = Inr (JObj [])\<rparr>"
  let ?lim = "\<lparr>status_code = 422,
                    resp_text = ''Only the first 1000 search results are available'',
                    rate_limit_reset = None, json_body = Inr (JObj [])\<rparr>"
  let ?server = "serving [Inr ?thr, Inr ?plain] (Inr ?ok) :: nat \<Rightarrow> pyerr + response"
  let ?server2 = "serving [Inr ?thr] (Inr ?lim) :: nat \<Rightarrow> pyerr + response"
  let ?server3 = "serving [Inr ?thr] (Inr ?bad) :: nat \<Rightarrow> pyerr + response"
  let ?server4 = "serving [] (Inr ?thr) :: nat \<Rightarrow> pyerr + response"
  let ?clock = "ticking 1700000000"
  let ?url = "BASE_URL @ ''/'' @ ''rate_limit''"
  have t: "throttling ?thr" "throttling ?plain" "throttling ?bad" by code_simp+
  have l: "window_limit ?lim" by code_simp
  have w: "can_wait any_sleep 0 ?thr (?clock 0)" "can_wait any_sleep 1 ?plain (?clock 1)"
    "\<not> can_wait any_sleep 1 ?bad (?clock 1)"
    by code_simp+
  have w4: "can_wait any_sleep k ?thr (?clock k)" for k
  proof -
    have r: "reset_time ?thr = Inr 1700000100" by code_simp
    have f: "\<not> float_overflows 1700000100" by code_simp
    let ?secs = "max (1700000100 - (1700000000 + rat_of_nat k)) 0 + 1"
    have "?secs \<le> 101"
      by (simp add: max_def)
    then have "?secs * 10 ^ 9 \<le> 101 * 10 ^ 9"
      by (rule mult_right_mono) simp
    also have "(101 * 10 ^ 9 :: rat) < 2 ^ 63" by simp
    finally have "\<not> sleep_overflows ?secs"
      by (simp only: sleep_overflows_def not_le)
    then show ?thesis
      using r f by (simp add: can_wait_def wait_for_def sleep_time_def any_sleep_def ticking_def)
  qed
  have h: "throttled_until ?server ?clock any_sleep 2"
    using t w by (simp add: throttled_until_def backs_off_def serving_def less_Suc_eq numeral_2_eq_2)
  have h2: "throttled_until ?server2 ?clock any_sleep 1"
    using t w by (simp add: throttled_until_def backs_off_def serving_def)
  have h3: "throttled_until ?server3 ?clock any_sleep 1"
    using t w by (simp add: throttled_until_def backs_off_def serving_def)
  have h4: "throttled_until ?server4 ?clock any_sleep m" for m
    using t w4 by (simp add: throttled_until_def backs_off_def serving_def)
  have tr: "retry_trace ?server ?clock ?url None 0 2 @ [Get ?url None]
            = [Get ''https://api.github.com/rate_limit'' None, Sleep 101,
               Get ''https://api.github.com/rate_limit'' None, Sleep 1,
               Get ''https://api.github.com/rate_limit'' None]"
    by code_simp
  have tr2: "retry_trace ?server2 ?clock ?url None 0 1 @ [Get ?url None]
            = [Get ''https://api.github.com/rate_limit'' None, Sleep 101,
               Get ''https://api.github.com/rate_limit'' None]"
    by code_simp
  have tr3: "retry_trace ?server3 ?clock ?url None 0 1 @ [Get ?url None]
            = [Get ''https://api.github.com/rate_limit'' None, Sleep 101,
               Get ''https://api.github.com/rate_limit'' None]"
    by code_simp
  have tf: "throttling ?far" by code_simp
  have wf: "\<not> can_wait (sleeps_below 9223300000) 0 ?far (?clock 0)" by code_simp
  have hf: "throttled_until ?distant ?clock (sleeps_below 9223300000) 0"
    by (simp add: throttled_until_def)
  have sf: "?distant 0 = Inr ?far" by (simp add: serving_def)
  have trf: "retry_trace ?distant ?clock ?url None 0 0 @ [Get ?url None]
            = [Get ''https://api.github.com/rate_limit'' None]"
    by code_simp
  have s2: "?server 2 = Inr ?ok" and s1: "?server2 1 = Inr ?lim" and s3: "?server3 1 = Inr ?bad"
    by (simp_all add: serving_def)
  from make_request_backoff [OF h, of "''rate_limit''" None] s2
  have "make_request ?server ?clock any_sleep ''rate_limit'' None
        = Some (JObj [], retry_trace ?server ?clock ?url None 0 2 @ [Get ?url None])"
    by simp
  moreover from make_request_backoff [OF h2, of "''rate_limit''" None] l s1
  have "make_request ?server2 ?clock any_sleep ''rate_limit'' None
        = Some (JNull, retry_trace ?server2 ?clock ?url None 0 1 @ [Get ?url None])"
    by simp
  moreover from make_request_backoff [OF h3, of "''rate_limit''" None] t(3) w(3) s3
  have "make_request ?server3 ?clock any_sleep ''rate_limit'' None
        = Some (JNull, retry_trace ?server3 ?clock ?url None 0 1 @ [Get ?url None])"
    by simp
  moreover from make_request_backoff [OF hf, of "''rate_limit''" None] tf wf sf
  have "make_request ?distant ?clock (sleeps_below 9223300000) ''rate_limit'' None
        = Some (JNull, retry_trace ?distant ?clock ?url None 0 0 @ [Get ?url None])"
    by simp
  moreover from make_request_backoff [OF h4 [of 0], of "''rate_limit''" None] h4
  have "make_request ?server4 ?clock any_sleep ''rate_limit'' None = None"
    by blast
  ultimately show ?thesis using h tr tr2 tr3 trf by simp
qed

theorem make_request_backoff_counterexample:
  "throttling \<lparr>status_code = 403, resp_text = ''API rate limit exceeded'',
               rate_limit_reset = Some ''soon'', json_body = Inl ValueError\<rparr>
   \<and> make_request
       (serving [] (Inr \<lparr>status_code = 403, resp_text = ''API rate limit exceeded'',
                          rate_limit_reset = Some ''soon'', json_body = Inl ValueError\<rparr>))
       (ticking 1700000000) any_sleep ''rate_limit'' None
     = Some (JNull, [Get ''https://api.github.com/rate_limit'' None])
   \<and> throttling \<lparr>status_code = 403, resp_text = ''API rate limit exceeded'',
               rate_limit_reset = Some ''99999999999'', json_body = Inl ValueError\<rparr>
   \<and> make_request
       (serving [] (Inr \<lparr>status_code = 403, resp_text = ''API rate limit exceeded'',
                          rate_limit_reset = Some ''99999999999'', json_body = Inl ValueError\<rparr>))
       (ticking 1700000000) any_sleep ''rate_limit'' None
     = Some (JNull, [Get ''https://api.github.com/rate_limit'' None])"
proof -
  let ?a = "\<lparr>status_code = 403, resp_text = ''API rate limit exceeded'',
               rate_limit_reset = Some ''soon'', json_body = Inl ValueError\<rparr>"
  let ?b = "\<lparr>status_code = 403, resp_text = ''API rate limit exceeded'',
               rate_limit_reset = Some ''99999999999'', json_body = Inl ValueError\<rparr>"
  have t: "throttling ?a" "throttling ?b" by code_simp+
  have w: "\<not> can_wait any_sleep 0 ?a (ticking 1700000000 0)"
    "\<not> can_wait any_sleep 0 ?b (ticking 1700000000 0)"
    by code_simp+
  have u: "BASE_URL @ ''/'' @ ''rate_limit'' = ''https://api.github.com/rate_limit''"
    by (simp add: BASE_URL_def)
  have "make_request (serving [] (Inr ?a)) (ticking 1700000000) any_sleep ''rate_limit'' None
        = Some (JNull, [Get ''https://api.github.com/rate_limit'' None])"
    unfolding make_request_def u
    using stop_step [of "serving [] (Inr ?a)" 0 ?a any_sleep "ticking 1700000000", OF _ t(1) w(1)]
    by (simp add: serving_def)
  moreover
  have "make_request (serving [] (Inr ?b)) (ticking 1700000000) any_sleep ''rate_limit'' None
        = Some (JNull, [Get ''https://api.github.com/rate_limit'' None])"
    unfolding make_request_def u
    using stop_step [of "serving [] (Inr ?b)" 0 ?b any_sleep "ticking 1700000000", OF _ t(2) w(2)]
    by (simp add: serving_def)
  ultimately show ?thesis using t by simp
qed

section \<open>The repositories of revert_repos.py\<close>

subsection \<open>The default branch\<close>

lemma try_branches_main_master:
  assumes "subprocess_run env (branch_list_cmd ''main'') False True = Inr m"
  shows "try_branches env [''main'', ''master''] cmds =
     (if strip (stdout m) \<noteq> [] then (Inr ''main'', cmds @ [branch_list_cmd ''main''])
      else (case subprocess_run env (branch_list_cmd ''master'') False True of
              Inl e \<Rightarrow> (Inl e, cmds @ [branch_list_cmd ''main'', branch_list_cmd ''master''])
            | Inr ms \<Rightarrow>
                if strip (stdout ms) \<noteq> []
                then (Inr ''master'', cmds @ [branch_list_cmd ''main'', branch_list_cmd ''master''])
                else (case subprocess_run env show_current_cmd True True of
                        Inl e \<Rightarrow> (Inl e, cmds @ [branch_list_cmd ''main'',
                                       branch_list_cmd ''master'', show_current_cmd])
                      | Inr cur \<Rightarrow> (Inr (strip (stdout cur)), cmds @ [branch_list_cmd ''main'',
                                       branch_list_cmd ''master'', show_current_cmd]))))"
  using assms by (simp split: sum.splits)

text \<open>
  Claim C7.  The default branch of a repository is resolved in this order: the remote
  HEAD symbolic reference \<open>refs/remotes/origin/HEAD\<close> when git resolves it (exit status
  0; the branch is the last component of the reference); otherwise \<open>main\<close> when
  \<open>git branch --list main\<close> prints a branch, otherwise \<open>master\<close> when
  \<open>git branch --list master\<close> does; otherwise the branch that is checked out.  A later
  source is asked only when the earlier ones gave nothing, and the branch found is
  checked out.
\<close>

theorem default_branch_order:
  assumes "subprocess_run env symbolic_ref_cmd False True = Inr head"
  shows "(returncode head = 0 \<longrightarrow>
            resolve_default_branch env
            = (Inr (last (split_on CHR ''/'' (strip (stdout head)))), [symbolic_ref_cmd]))
       \<and> (\<forall>m. returncode head \<noteq> 0
               \<and> subprocess_run env (branch_list_cmd ''main'') False True = Inr m
               \<and> strip (stdout m) \<noteq> [] \<longrightarrow>
            resolve_default_branch env
            = (Inr ''main'', [symbolic_ref_cmd, branch_list_cmd ''main'']))
       \<and> (\<forall>m ms. returncode head \<noteq> 0
               \<and> subprocess_run env (branch_list_cmd ''main'') False True = Inr m
               \<and> strip (stdout m) = []
               \<and> subprocess_run env (branch_list_cmd ''master'') False True = Inr ms
               \<and> strip (stdout ms) \<noteq> [] \<longrightarrow>
            resolve_default_branch env
            = (Inr ''master'',
               [symbolic_ref_cmd, branch_list_cmd ''main'', branch_list_cmd ''master'']))
       \<and> (\<forall>m ms cur. returncode head \<noteq> 0
               \<and> subprocess_run env (branch_list_cmd ''main'') False True = Inr m
               \<and> strip (stdout m) = []
               \<and> subprocess_run env (branch_list_cmd ''master'') False True = Inr ms
               \<and> strip (stdout ms) = []
               \<and> subprocess_run env show_current_cmd True True = Inr cur \<longrightarrow>
            resolve_default_branch env
            = (Inr (strip (stdout cur)),
               [symbolic_ref_cmd, branch_list_cmd ''main'', branch_list_cmd ''master'',
                show_current_cmd]))
       \<and> (\<forall>b cmds. resolve_default_branch env = (Inr b, cmds) \<longrightarrow>
            checkout_default env = cmds @ [checkout_cmd b])"
  using assms
  by (auto simp: resolve_default_branch_def checkout_default_def try_branches_main_master
      simp del: try_branches.simps)


theorem default_branch_order_witness:
  "resolve_default_branch
     [(symbolic_ref_cmd,
       Inr \<lparr>returncode = 0, stdout = ''refs/remotes/origin/main'', stderr = []\<rparr>)]
   = (Inr ''main'', [symbolic_ref_cmd])
   \<and> resolve_default_branch
     [(symbolic_ref_cmd, Inr \<lparr>returncode = 128, stdout = [], stderr = ''fatal''\<rparr>),
      (branch_list_cmd ''main'', Inr \<lparr>returncode = 0, stdout = [], stderr = []\<rparr>),
      (branch_list_cmd ''master'',
       Inr \<lparr>returncode = 0, stdout = ''* master'', stderr = []\<rparr>)]
   = (Inr ''master'', [symbolic_ref_cmd, branch_list_cmd ''main'', branch_list_cmd ''master''])
   \<and> checkout_default
     [(symbolic_ref_cmd, Inr \<lparr>returncode = 128, stdout = [], stderr = ''fatal''\<rparr>),
      (branch_list_cmd ''main'', Inr \<lparr>returncode = 0, stdout = [], stderr = []\<rparr>),
      (branch_list_cmd ''master'', Inr \<lparr>returncode = 0, stdout = [], stderr = []\<rparr>),
      (show_current_cmd, Inr \<lparr>returncode = 0, stdout = ''dev'', stderr = []\<rparr>)]
   = [symbolic_ref_cmd, branch_list_cmd ''main'', branch_list_cmd ''master'', show_current_cmd,
      checkout_cmd ''dev'']"
proof -
  let ?env1 = "[(symbolic_ref_cmd,
       Inr \<lparr>returncode = 0, stdout = ''refs/remotes/origin/main'', stderr = []\<rparr>)]"
  let ?env2 = "[(symbolic_ref_cmd, Inr \<lparr>returncode = 128, stdout = [], stderr = ''fatal''\<rparr>),
      (branch_list_cmd ''main'', Inr \<lparr>returncode = 0, stdout = [], stderr = []\<rparr>),
      (branch_list_cmd ''master'',
       Inr \<lparr>returncode = 0, stdout = ''* master'', stderr = []\<rparr>)]"
  let ?env3 = "[(symbolic_ref_cmd, Inr \<lparr>returncode = 128, stdout = [], stderr = ''fatal''\<rparr>),
      (branch_list_cmd ''main'', Inr \<lparr>returncode = 0, stdout = [], stderr = []\<rparr>),
      (branch_list_cmd ''master'', Inr \<lparr>returncode = 0, stdout = [], stderr = []\<rparr>),
      (show_current_cmd, Inr \<lparr>returncode = 0, stdout = ''dev'', stderr = []\<rparr>)]"
  let ?head = "\<lparr>returncode = 0, stdout = ''refs/remotes/origin/main'', stderr = []\<rparr>"
  let ?fatal = "\<lparr>returncode = 128, stdout = [], stderr = ''fatal''\<rparr>"
  let ?blank = "\<lparr>returncode = 0, stdout = [], stderr = []\<rparr>"
  let ?master = "\<lparr>returncode = 0, stdout = ''* master'', stderr = []\<rparr>"
  let ?dev = "\<lparr>returncode = 0, stdout = ''dev'', stderr = []\<rparr>"
  have h1: "subprocess_run ?env1 symbolic_ref_cmd False True = Inr ?head"
    by code_simp
  have l1: "last (split_on CHR ''/'' (strip (stdout ?head))) = ''main''"
    by code_simp
  have h2: "subprocess_run ?env2 symbolic_ref_cmd False True = Inr ?fatal"
    and p2: "returncode ?fatal \<noteq> 0
      \<and> subprocess_run ?env2 (branch_list_cmd ''main'') False True = Inr ?blank
      \<and> strip (stdout ?blank) = []
      \<and> subprocess_run ?env2 (branch_list_cmd ''master'') False True = Inr ?master
      \<and> strip (stdout ?master) \<noteq> []"
    by code_simp+
  have h3: "subprocess_run ?env3 symbolic_ref_cmd False True = Inr ?fatal"
    and p3: "returncode ?fatal \<noteq> 0
      \<and> subprocess_run ?env3 (branch_list_cmd ''main'') False True = Inr ?blank
      \<and> strip (stdout ?blank) = []
      \<and> subprocess_run ?env3 (branch_list_cmd ''master'') False True = Inr ?blank
      \<and> strip (stdout ?blank) = []
      \<and> subprocess_run ?env3 show_current_cmd True True = Inr ?dev"
    and s3: "strip (stdout ?dev) = ''dev''"
    by code_simp+
  have z: "returncode ?head = 0" by simp
  note o1 = default_branch_order [OF h1, THEN conjunct1, rule_format, OF z]
  note o2 = default_branch_order [OF h2, THEN conjunct2, THEN conjunct2, THEN conjunct1,
      rule_format, OF p2]
  note o3 = default_branch_order [OF h3, THEN conjunct2, THEN conjunct2, THEN conjunct2,
      THEN conjunct1, rule_format, OF p3]
  note o4 = default_branch_order [OF h3, THEN conjunct2, THEN conjunct2, THEN conjunct2,
      THEN conjunct2, rule_format, OF o3]
  show ?thesis
    using o1 o2 o4 by (simp only: l1 s3 append.simps) 
qed

subsection \<open>A repository without a commit before the date\<close>

lemma try_branches_cmds:
  "set (snd (try_branches env bs cmds))
   \<subseteq> set cmds \<union> {show_current_cmd} \<union> branch_list_cmd ` set bs"
proof (induction bs arbitrary: cmds)
  case Nil
  then show ?case by (auto split: sum.splits)
next
  case (Cons b bs)
  show ?case
    using Cons.IH [of "cmds @ [branch_list_cmd b]"] by (auto split: sum.splits)
qed

lemma resolve_cmds:
  "set (snd (resolve_default_branch env))
   \<subseteq> {symbolic_ref_cmd, show_current_cmd, branch_list_cmd ''main'', branch_list_cmd ''master''}"
  using try_branches_cmds [of env "[''main'', ''master'']" "[symbolic_ref_cmd]"]
  by (auto simp: resolve_default_branch_def split: sum.splits simp del: try_branches.simps)

lemma checkout_default_no_reset: "argv \<in> set (checkout_default env) \<Longrightarrow> \<not> is_reset argv"
proof -
  assume a: "argv \<in> set (checkout_default env)"
  obtain res cmds where r: "resolve_default_branch env = (res, cmds)"
    by (cases "resolve_default_branch env")
  then have "set cmds \<subseteq> {symbolic_ref_cmd, show_current_cmd, branch_list_cmd ''main'',
      branch_list_cmd ''master''}"
    using resolve_cmds [of env] by simp
  moreover have "argv \<in> set cmds \<or> (\<exists>b. argv = checkout_cmd b)"
    using a r by (cases res) (auto simp: checkout_default_def)
  ultimately show ?thesis
    by (auto simp: is_reset_def symbolic_ref_cmd_def show_current_cmd_def branch_list_cmd_def
        checkout_cmd_def)
qed

lemma revert_one_no_commit:
  assumes "no_commit_before date r"
  shows "revert_one date r st
         = (failed (repo_name r) ''No commits found before target date''
              (ran (repo_name r) (checkout_default (git r) @ [get_commit_cmd date]) st), None)"
  using assms by (auto simp: revert_one_def no_commit_before_def Let_def split: sum.splits)

lemma handle_exn_grows: "set (failed_projects st) \<subseteq> set (failed_projects (fst (handle_exn name e st)))"
  by (auto simp: handle_exn_def failed_def split: sum.splits)

lemma failed_projects_ran [simp]: "failed_projects (ran name cmds st) = failed_projects st"
  by (simp add: ran_def)

lemma revert_one_grows:
  "set (failed_projects st) \<subseteq> set (failed_projects (fst (revert_one date r st)))"
proof -
  have h: "set (failed_projects st) \<subseteq> set (failed_projects (fst (handle_exn name e st')))"
    if "failed_projects st' = failed_projects st" for name e st'
    using handle_exn_grows [of st' name e] that by simp
  show ?thesis
    unfolding revert_one_def Let_def
    by (auto split: sum.splits simp: failed_def intro: h [THEN subsetD])
qed

lemma revert_loop_grows:
  "set (failed_projects st) \<subseteq> set (failed_projects (fst (revert_loop date rs st)))"
proof (induction rs arbitrary: st)
  case Nil
  then show ?case by simp
next
  case (Cons a rs)
  obtain st1 e where a: "revert_one date a st = (st1, e)" by (cases "revert_one date a st")
  have g: "set (failed_projects st) \<subseteq> set (failed_projects st1)"
    using revert_one_grows [of st date a] a by simp
  show ?case
  proof (cases e)
    case None
    then show ?thesis using a g Cons.IH [of st1] by auto
  next
    case (Some x)
    then show ?thesis using a g by simp
  qed
qed

lemma revert_loop_records:
  assumes "revert_loop date rs st = (st', None)" "r \<in> set rs" "no_commit_before date r"
  shows "(repo_name r, ''No commits found before target date'') \<in> set (failed_projects st')"
  using assms
proof (induction rs arbitrary: st)
  case Nil
  then show ?case by simp
next
  case (Cons a rs)
  obtain st1 e where a: "revert_one date a st = (st1, e)" by (cases "revert_one date a st")
  have e: "e = None" using Cons.prems(1) a by (cases e) auto
  then have rest: "revert_loop date rs st1 = (st', None)" using Cons.prems(1) a by simp
  show ?case
  proof (cases "r = a")
    case True
    then have "(repo_name r, ''No commits found before target date'') \<in> set (failed_projects st1)"
      using a revert_one_no_commit [OF Cons.prems(3), of st] by (simp add: failed_def)
    then show ?thesis using revert_loop_grows [of st1 date rs] rest by auto
  next
    case False
    then show ?thesis using Cons rest by auto
  qed
qed

text \<open>
  Claim C6, as the code has it.  For a repository of the batch in which \<open>rev-list\<close> finds
  no commit up to the target date, no \<open>git reset\<close> is run: the commands run there are
  those of the default branch, with its checkout, and the \<open>rev-list\<close> lookup.  The
  repository is appended to \<open>failed_projects\<close> with the reason
  \<open>No commits found before target date\<close>, the loop goes on with the next repository,
  and the log that a batch writes when it returns has the line of the repository.
\<close>

theorem no_commit_repo_is_skipped:
  assumes "no_commit_before date r"
  shows "revert_one date r st
           = (failed (repo_name r) ''No commits found before target date''
                (ran (repo_name r) (checkout_default (git r) @ [get_commit_cmd date]) st), None)
       \<and> (\<forall>argv \<in> set (checkout_default (git r) @ [get_commit_cmd date]). \<not> is_reset argv)
       \<and> revert_loop date (r # rs) st
           = revert_loop date rs
               (failed (repo_name r) ''No commits found before target date''
                  (ran (repo_name r) (checkout_default (git r) @ [get_commit_cmd date]) st))
       \<and> (\<forall>reformat listing target_date.
             reformat target_date = Inr date \<and> r \<in> set listing \<and> repo_is_dir r \<and> repo_has_git r
             \<and> ending (revert_repos_to_date reformat True listing target_date) = Returned \<longrightarrow>
             (\<exists>lines. log_file (revert_repos_to_date reformat True listing target_date)
                       = Some (''logs/failed_projects_'' @ target_date @ ''.log'', lines)
                    \<and> repo_name r @ '': No commits found before target date'' \<in> set lines))"
proof -
  note one = revert_one_no_commit [OF assms, of st]
  have nr: "\<forall>argv \<in> set (checkout_default (git r) @ [get_commit_cmd date]). \<not> is_reset argv"
    using checkout_default_no_reset [of _ "git r"]
    by (auto simp: is_reset_def get_commit_cmd_def)
  have loop: "revert_loop date (r # rs) st
           = revert_loop date rs
               (failed (repo_name r) ''No commits found before target date''
                  (ran (repo_name r) (checkout_default (git r) @ [get_commit_cmd date]) st))"
    by (simp add: one)
  have batch: "\<exists>lines. log_file (revert_repos_to_date reformat True listing target_date)
                       = Some (''logs/failed_projects_'' @ target_date @ ''.log'', lines)
                    \<and> repo_name r @ '': No commits found before target date'' \<in> set lines"
    if fmt: "reformat target_date = Inr date" and mem: "r \<in> set listing"
      and dir: "repo_is_dir r" "repo_has_git r"
      and ret: "ending (revert_repos_to_date reformat True listing target_date) = Returned"
    for reformat listing target_date
  proof -
    let ?repos = "filter (\<lambda>d. repo_is_dir d \<and> repo_has_git d) listing"
    let ?init = "\<lparr>failed_projects = [], commands = []\<rparr>"
    have in_repos: "r \<in> set ?repos" using mem dir by simp
    then have ne: "?repos \<noteq> []" by (auto simp: filter_empty_conv)
    obtain st' e where l: "revert_loop date ?repos ?init = (st', e)"
      by (cases "revert_loop date ?repos ?init")
    have e: "e = None"
      using ret fmt ne l by (cases e) (simp_all add: revert_repos_to_date_def)
    from revert_loop_records [OF l [unfolded e] in_repos assms]
    have rec: "(repo_name r, ''No commits found before target date'') \<in> set (failed_projects st')" .
    then have "failed_projects st' \<noteq> []" by auto
    then have "log_file (revert_repos_to_date reformat True listing target_date)
               = Some (''logs/failed_projects_'' @ target_date @ ''.log'', log_lines (failed_projects st'))"
      using fmt ne l e by (simp add: revert_repos_to_date_def)
    moreover have "repo_name r @ '': No commits found before target date''
                   \<in> set (log_lines (failed_projects st'))"
      using rec by (force simp: log_lines_def)
    ultimately show ?thesis by blast
  qed
  show ?thesis using one nr loop batch by blast
qed

theorem no_commit_repo_is_skipped_witness:
  "no_commit_before ''2019-01-01''
      \<lparr>repo_name = ''demo'', repo_is_dir = True, repo_has_git = True,
       git = [(symbolic_ref_cmd,
               Inr \<lparr>returncode = 0, stdout = ''refs/remotes/origin/main'' @ [CHR 0x0A],
                    stderr = []\<rparr>),
              (checkout_cmd ''main'', Inr \<lparr>returncode = 0, stdout = [], stderr = []\<rparr>),
              (get_commit_cmd ''2019-01-01'',
               Inr \<lparr>returncode = 0, stdout = [], stderr = []\<rparr>)]\<rparr>
   \<and> revert_one ''2019-01-01''
      \<lparr>repo_name = ''demo'', repo_is_dir = True, repo_has_git = True,
       git = [(symbolic_ref_cmd,
               Inr \<lparr>returncode = 0, stdout = ''refs/remotes/origin/main'' @ [CHR 0x0A],
                    stderr = []\<rparr>),
              (checkout_cmd ''main'', Inr \<lparr>returncode = 0, stdout = [], stderr = []\<rparr>),
              (get_commit_cmd ''2019-01-01'',
               Inr \<lparr>returncode = 0, stdout = [], stderr = []\<rparr>)]\<rparr>
      \<lparr>failed_projects = [], commands = []\<rparr>
     = (\<lparr>failed_projects = [(''demo'', ''No commits found before target date'')],
         commands = [(''demo'', symbolic_ref_cmd), (''demo'', checkout_cmd ''main''),
                     (''demo'', get_commit_cmd ''2019-01-01'')]\<rparr>, None)
   \<and> ending (revert_repos_to_date (\<lambda>target_date. Inr ''2019-01-01'') True
      [\<lparr>repo_name = ''demo'', repo_is_dir = True, repo_has_git = True,
       git = [(symbolic_ref_cmd,
               Inr \<lparr>returncode = 0, stdout = ''refs/remotes/origin/main'' @ [CHR 0x0A],
                    stderr = []\<rparr>),
              (checkout_cmd ''main'', Inr \<lparr>returncode = 0, stdout = [], stderr = []\<rparr>),
              (get_commit_cmd ''2019-01-01'',
               Inr \<lparr>returncode = 0, stdout = [], stderr = []\<rparr>)]\<rparr>] ''01-01-2019'')
     = Returned
   \<and> log_file (revert_repos_to_date (\<lambda>target_date. Inr ''2019-01-01'') True
      [\<lparr>repo_name = ''demo'', repo_is_dir = True, repo_has_git = True,
       git = [(symbolic_ref_cmd,
               Inr \<lparr>returncode = 0, stdout = ''refs/remotes/origin/main'' @ [CHR 0x0A],
                    stderr = []\<rparr>),
              (checkout_cmd ''main'', Inr \<lparr>returncode = 0, stdout = [], stderr = []\<rparr>),
              (get_commit_cmd ''2019-01-01'',
               Inr \<lparr>returncode = 0, stdout = [], stderr = []\<rparr>)]\<rparr>] ''01-01-2019'')
     = Some (''logs/failed_projects_01-01-2019.log'',
             [''Projects that failed to revert:'',
              ''demo: No commits found before target date''])"
proof -
  let ?r = "\<lparr>repo_name = ''demo'', repo_is_dir = True, repo_has_git = True,
       git = [(symbolic_ref_cmd,
               Inr \<lparr>returncode = 0, stdout = ''refs/remotes/origin/main'' @ [CHR 0x0A],
                    stderr = []\<rparr>),
              (checkout_cmd ''main'', Inr \<lparr>returncode = 0, stdout = [], stderr = []\<rparr>),
              (get_commit_cmd ''2019-01-01'',
               Inr \<lparr>returncode = 0, stdout = [], stderr = []\<rparr>)]\<rparr>"
  let ?e = "\<lparr>failed_projects = [], commands = []\<rparr>"
  have h: "no_commit_before ''2019-01-01'' ?r" by code_simp
  have c: "failed (repo_name ?r) ''No commits found before target date''
             (ran (repo_name ?r) (checkout_default (git ?r) @ [get_commit_cmd ''2019-01-01'']) ?e)
           = \<lparr>failed_projects = [(''demo'', ''No commits found before target date'')],
         commands = [(''demo'', symbolic_ref_cmd), (''demo'', checkout_cmd ''main''),
                     (''demo'', get_commit_cmd ''2019-01-01'')]\<rparr>"
    by code_simp
  have l: "log_file (revert_repos_to_date (\<lambda>target_date. Inr ''2019-01-01'') True [?r] ''01-01-2019'')
     = Some (''logs/failed_projects_01-01-2019.log'',
             [''Projects that failed to revert:'',
              ''demo: No commits found before target date''])"
    by code_simp
  from no_commit_repo_is_skipped [OF h, of ?e "[]"]
  have "revert_one ''2019-01-01'' ?r ?e
        = (failed (repo_name ?r) ''No commits found before target date''
             (ran (repo_name ?r) (checkout_default (git ?r) @ [get_commit_cmd ''2019-01-01'']) ?e), None)"
    by blast
  moreover have "ending (revert_repos_to_date (\<lambda>target_date. Inr ''2019-01-01'') True [?r] ''01-01-2019'')
     = Returned"
    by code_simp
  ultimately show ?thesis using h l by (simp only: c)
qed

text \<open>
  The working tree is not left untouched in every case: in a repository whose remote
  HEAD is \<open>main\<close> and that has no commit up to the date, \<open>git checkout main\<close> is run
  before the lookup.
\<close>

theorem no_commit_repo_is_skipped_counterexample:
  "no_commit_before ''2019-01-01''
      \<lparr>repo_name = ''demo'', repo_is_dir = True, repo_has_git = True,
       git = [(symbolic_ref_cmd,
               Inr \<lparr>returncode = 0, stdout = ''refs/remotes/origin/main'' @ [CHR 0x0A],
                    stderr = []\<rparr>),
              (checkout_cmd ''main'', Inr \<lparr>returncode = 0, stdout = [], stderr = []\<rparr>),
              (get_commit_cmd ''2019-01-01'',
               Inr \<lparr>returncode = 0, stdout = [], stderr = []\<rparr>)]\<rparr>
   \<and> (''demo'', [''git'', ''checkout'', ''main''])
       \<in> set (commands (fst (revert_one ''2019-01-01''
      \<lparr>repo_name = ''demo'', repo_is_dir = True, repo_has_git = True,
       git = [(symbolic_ref_cmd,
               Inr \<lparr>returncode = 0, stdout = ''refs/remotes/origin/main'' @ [CHR 0x0A],
                    stderr = []\<rparr>),
              (checkout_cmd ''main'', Inr \<lparr>returncode = 0, stdout = [], stderr = []\<rparr>),
              (get_commit_cmd ''2019-01-01'',
               Inr \<lparr>returncode = 0, stdout = [], stderr = []\<rparr>)]\<rparr>
      \<lparr>failed_projects = [], commands = []\<rparr>)))
   \<and> is_checkout [''git'', ''checkout'', ''main'']"
  by code_simp

text \<open>
  The handler of \<open>CalledProcessError\<close> decodes \<open>e.stderr\<close>, which is a string already
  when the command was run with \<open>text=True\<close>.  A repository whose \<open>rev-list\<close> fails
  with a message on stderr therefore ends the whole batch with an \<open>AttributeError\<close>,
  and the log of the repositories that failed before it is not written.
\<close>

lemma handler_error_aborts_batch:
  "ending (revert_repos_to_date (\<lambda>target_date. Inr ''2019-01-01'') True
      [\<lparr>repo_name = ''demo'', repo_is_dir = True, repo_has_git = True,
        git = [(symbolic_ref_cmd,
                Inr \<lparr>returncode = 0, stdout = ''refs/remotes/origin/main'', stderr = []\<rparr>),
               (checkout_cmd ''main'', Inr \<lparr>returncode = 0, stdout = [], stderr = []\<rparr>),
               (get_commit_cmd ''2019-01-01'',
                Inr \<lparr>returncode = 0, stdout = [], stderr = []\<rparr>)]\<rparr>,
       \<lparr>repo_name = ''broken'', repo_is_dir = True, repo_has_git = True,
        git = [(symbolic_ref_cmd,
                Inr \<lparr>returncode = 0, stdout = ''refs/remotes/origin/main'', stderr = []\<rparr>),
               (checkout_cmd ''main'', Inr \<lparr>returncode = 0, stdout = [], stderr = []\<rparr>),
               (get_commit_cmd ''2019-01-01'',
                Inr \<lparr>returncode = 128, stdout = [],
                     stderr = ''fatal: not a git repository''\<rparr>)]\<rparr>]
      ''01-01-2019'') = Raised AttributeError
   \<and> log_file (revert_repos_to_date (\<lambda>target_date. Inr ''2019-01-01'') True
      [\<lparr>repo_name = ''demo'', repo_is_dir = True, repo_has_git = True,
        git = [(symbolic_ref_cmd,
                Inr \<lparr>returncode = 0, stdout = ''refs/remotes/origin/main'', stderr = []\<rparr>),
               (checkout_cmd ''main'', Inr \<lparr>returncode = 0, stdout = [], stderr = []\<rparr>),
               (get_commit_cmd ''2019-01-01'',
                Inr \<lparr>returncode = 0, stdout = [], stderr = []\<rparr>)]\<rparr>,
       \<lparr>repo_name = ''broken'', repo_is_dir = True, repo_has_git = True,
        git = [(symbolic_ref_cmd,
                Inr \<lparr>returncode = 0, stdout = ''refs/remotes/origin/main'', stderr = []\<rparr>),
               (checkout_cmd ''main'', Inr \<lparr>returncode = 0, stdout = [], stderr = []\<rparr>),
               (get_commit_cmd ''2019-01-01'',
                Inr \<lparr>returncode = 128, stdout = [],
                     stderr = ''fatal: not a git repository''\<rparr>)]\<rparr>]
      ''01-01-2019'') = None"
  by code_simp

section \<open>The rows of get_contributors.py\<close>

lemma map_of_dict_put: "map_of (dict_put k v d) k' = (if k' = k then Some v else map_of d k')"
  by (induction d) auto

lemma map_of_foldl_put:
  "map_of (foldl (\<lambda>d col. dict_put col (f col) d) d0 cols) k
   = (if k \<in> set cols then Some (f k) else map_of d0 k)"
  by (induction cols arbitrary: d0) (auto simp: map_of_dict_put)

lemma map_of_new_row:
  "map_of (new_row_of required_columns fieldnames row) col
   = (if col \<in> set required_columns \<and> col \<in> set fieldnames
      then Some (cell_of (row_get row col [])) else None)"
  by (simp add: new_row_of_def map_of_foldl_put)

lemma url_a_b:
  "strip ''https://github.com/a/b'' = ''https://github.com/a/b''"
  "in_str ''github.com'' ''https://github.com/a/b''"
  "parse_github_url ''https://github.com/a/b'' = Inr (Some ''a'', Some ''b'')"
  "strip [] = []"
  by code_simp+

text \<open>
  Claim C8.  For an input CSV whose two rows have \<open>html_url\<close>
  \<open>https://github.com/a/b\<close> and the empty string,
  \<open>process_csv_with_specific_columns\<close> returns two rows in the order of the input:
  the \<open>contributors_count\<close> of the first is the count fetched for owner \<open>a\<close> and
  repository \<open>b\<close>, that of the second is 0, and each keeps its \<open>html_url\<close>; no row
  is dropped.  The rows may have other fields.
\<close>

theorem contributors_scenario:
  assumes "map_of row1 ''html_url'' = Some (Some ''https://github.com/a/b'')"
    and "map_of row2 ''html_url'' = Some (Some [])"
  shows "\<exists>out1 out2.
           process_csv_with_specific_columns fetch (Inr (Some fieldnames, [row1, row2])) ''html_url''
           = ([out1, out2],
              [''html_url'', ''stargazers_count'', ''forks_count'', ''open_issues_count'',
               ''contributors_count''])
         \<and> map_of out1 ''contributors_count'' = Some (Num (fetch ''a'' ''b''))
         \<and> map_of out2 ''contributors_count'' = Some (Num 0)
         \<and> (''html_url'' \<in> set fieldnames \<longrightarrow>
               map_of out1 ''html_url'' = Some (Str ''https://github.com/a/b'')
               \<and> map_of out2 ''html_url'' = Some (Str []))"
proof -
  let ?req = "[''html_url'', ''stargazers_count'', ''forks_count'', ''open_issues_count'']"
  let ?out1 = "dict_put ''contributors_count'' (Num (fetch ''a'' ''b''))
                 (new_row_of ?req fieldnames row1)"
  let ?out2 = "dict_put ''contributors_count'' (Num 0) (new_row_of ?req fieldnames row2)"
  have g1: "row_get row1 ''html_url'' [] = Some ''https://github.com/a/b''"
    and g2: "row_get row2 ''html_url'' [] = Some []"
    using assms by (simp_all add: row_get_def)
  have p1: "process_row fetch ?req fieldnames ''html_url'' row1 = Inr ?out1"
    by (simp add: process_row_def g1 url_a_b)
  have p2: "process_row fetch ?req fieldnames ''html_url'' row2 = Inr ?out2"
    by (simp add: process_row_def g2 url_a_b)
  have "process_csv_with_specific_columns fetch (Inr (Some fieldnames, [row1, row2])) ''html_url''
        = ([?out1, ?out2], ?req @ [''contributors_count''])"
    by (simp add: process_csv_with_specific_columns_def Let_def p1 p2)
  moreover have "map_of ?out1 ''contributors_count'' = Some (Num (fetch ''a'' ''b''))"
    "map_of ?out2 ''contributors_count'' = Some (Num 0)"
    by (simp_all add: map_of_dict_put)
  moreover have "map_of ?out1 ''html_url'' = Some (Str ''https://github.com/a/b'')"
    "map_of ?out2 ''html_url'' = Some (Str [])" if "''html_url'' \<in> set fieldnames"
    using that by (simp_all add: map_of_dict_put map_of_new_row g1 g2 cell_of_def)
  ultimately show ?thesis by (intro exI [of _ ?out1] exI [of _ ?out2]) simp
qed

theorem contributors_scenario_witness:
  "map_of [(''html_url'', Some ''https://github.com/a/b'')] ''html_url''
     = Some (Some ''https://github.com/a/b'')
   \<and> map_of [(''html_url'', Some [])] ''html_url'' = Some (Some [])
   \<and> process_csv_with_specific_columns (\<lambda>owner repo. 42)
     (Inr (Some [''html_url''],
           [[(''html_url'', Some ''https://github.com/a/b'')], [(''html_url'', Some [])]]))
     ''html_url''
   = ([[(''html_url'', Str ''https://github.com/a/b''), (''contributors_count'', Num 42)],
       [(''html_url'', Str []), (''contributors_count'', Num 0)]],
      [''html_url'', ''stargazers_count'', ''forks_count'', ''open_issues_count'',
       ''contributors_count''])"
proof -
  let ?row1 = "[(''html_url'', Some ''https://github.com/a/b'')]"
  let ?row2 = "[(''html_url'', Some [])]"
  have h1: "map_of ?row1 ''html_url'' = Some (Some ''https://github.com/a/b'')"
    and h2: "map_of ?row2 ''html_url'' = Some (Some [])"
    by simp_all
  have n: "new_row_of [''html_url'', ''stargazers_count'', ''forks_count'', ''open_issues_count'']
             [''html_url''] ?row1 = [(''html_url'', Str ''https://github.com/a/b'')]"
      "new_row_of [''html_url'', ''stargazers_count'', ''forks_count'', ''open_issues_count'']
             [''html_url''] ?row2 = [(''html_url'', Str [])]"
    by code_simp+
  from contributors_scenario [OF h1 h2, of "\<lambda>owner repo. 42" "[''html_url'']"]
  obtain out1 out2 where o:
    "process_csv_with_specific_columns (\<lambda>owner repo. 42)
       (Inr (Some [''html_url''], [?row1, ?row2])) ''html_url''
     = ([out1, out2], [''html_url'', ''stargazers_count'', ''forks_count'', ''open_issues_count'',
         ''contributors_count''])"
    by blast
  have e: "process_csv_with_specific_columns (\<lambda>owner repo. 42)
       (Inr (Some [''html_url''], [?row1, ?row2])) ''html_url''
     = ([[(''html_url'', Str ''https://github.com/a/b''), (''contributors_count'', Num 42)],
       [(''html_url'', Str []), (''contributors_count'', Num 0)]],
      [''html_url'', ''stargazers_count'', ''forks_count'', ''open_issues_count'',
       ''contributors_count''])"
    by code_simp
  show ?thesis using h1 h2 o e by simp
qed

section \<open>The filter of github_csv_filter.py\<close>

lemma filter_loop_eq:
  "list_all counts_are_integers repos \<Longrightarrow>
   filter_loop a b c repos acc = Inr (acc @ filter (meets a b c) repos)"
proof (induction repos arbitrary: acc)
  case Nil
  then show ?case by simp
next
  case (Cons repo repos)
  then obtain s n where sn: "int_field repo ''stargazers_count'' = Inr s"
      "int_field repo ''open_issues_count'' = Inr n"
    by (auto simp: counts_are_integers_def split: sum.splits)
  show ?case
    using Cons sn by (simp add: meets_def)
qed

lemma filter_loop_error:
  "\<not> list_all counts_are_integers repos \<Longrightarrow> \<exists>e. filter_loop a b c repos acc = Inl e"
proof (induction repos arbitrary: acc)
  case Nil
  then show ?case by simp
next
  case (Cons repo repos)
  show ?case
  proof (cases "counts_are_integers repo")
    case True
    then obtain s n where sn: "int_field repo ''stargazers_count'' = Inr s"
        "int_field repo ''open_issues_count'' = Inr n"
      by (auto simp: counts_are_integers_def split: sum.splits)
    have "\<not> list_all counts_are_integers repos" using Cons.prems True by simp
    from Cons.IH [OF this] show ?thesis using sn by simp
  next
    case False
    then show ?thesis by (auto simp: counts_are_integers_def split: sum.splits)
  qed
qed

text \<open>
  Claim C10, as the code has it.  When \<open>stargazers_count\<close> and \<open>open_issues_count\<close> of
  every loaded repository are integers (or absent, which counts 0),
  \<open>filter_repositories\<close> returns, for every choice of thresholds, the repositories
  with at least \<open>min_stars\<close> stars, \<open>min_open_issues\<close> open issues and \<open>min_topics\<close>
  topics, in their order: a subsequence of the stored list.  Topics that cannot be
  read count 0.  Otherwise \<open>int\<close> raises and the method returns no list.  The stored
  list is not modified.
\<close>

theorem filter_repositories_selects:
  "(list_all counts_are_integers (repositories self) \<longrightarrow>
      fst (filter_repositories self min_stars min_open_issues min_topics)
      = Inr (filter (meets min_stars min_open_issues min_topics) (repositories self))
      \<and> subseq (filter (meets min_stars min_open_issues min_topics) (repositories self))
           (repositories self))
   \<and> (\<not> list_all counts_are_integers (repositories self) \<longrightarrow>
      (\<exists>e. fst (filter_repositories self min_stars min_open_issues min_topics) = Inl e))
   \<and> snd (filter_repositories self min_stars min_open_issues min_topics) = self"
  using filter_loop_eq [of "repositories self" min_stars min_open_issues min_topics "[]"]
    filter_loop_error [of "repositories self" min_stars min_open_issues min_topics "[]"]
  by (simp add: filter_repositories_def)


theorem filter_repositories_selects_witness:
  "list_all counts_are_integers (repositories
      \<lparr>input_file = ''repos.csv'',
       repositories =
         [[(''full_name'', Some ''a/b''), (''stargazers_count'', Some ''12''),
           (''open_issues_count'', Some ''3''), (''topics'', Some ''[ml, data]'')],
          [(''full_name'', Some ''c/d''), (''stargazers_count'', Some ''2''),
           (''open_issues_count'', Some ''7''), (''topics'', Some ''[]'')],
          [(''full_name'', Some ''e/f''), (''stargazers_count'', Some ''40''),
           (''open_issues_count'', Some ''9''), (''topics'', None)]]\<rparr>)
   \<and> fst (filter_repositories
      \<lparr>input_file = ''repos.csv'',
       repositories =
         [[(''full_name'', Some ''a/b''), (''stargazers_count'', Some ''12''),
           (''open_issues_count'', Some ''3''), (''topics'', Some ''[ml, data]'')],
          [(''full_name'', Some ''c/d''), (''stargazers_count'', Some ''2''),
           (''open_issues_count'', Some ''7''), (''topics'', Some ''[]'')],
          [(''full_name'', Some ''e/f''), (''stargazers_count'', Some ''40''),
           (''open_issues_count'', Some ''9''), (''topics'', None)]]\<rparr> 5 1 1)
     = Inr [[(''full_name'', Some ''a/b''), (''stargazers_count'', Some ''12''),
             (''open_issues_count'', Some ''3''), (''topics'', Some ''[ml, data]'')]]"
proof -
  let ?self = "\<lparr>input_file = ''repos.csv'',
       repositories =
         [[(''full_name'', Some ''a/b''), (''stargazers_count'', Some ''12''),
           (''open_issues_count'', Some ''3''), (''topics'', Some ''[ml, data]'')],
          [(''full_name'', Some ''c/d''), (''stargazers_count'', Some ''2''),
           (''open_issues_count'', Some ''7''), (''topics'', Some ''[]'')],
          [(''full_name'', Some ''e/f''), (''stargazers_count'', Some ''40''),
           (''open_issues_count'', Some ''9''), (''topics'', None)]]\<rparr>"
  have h: "list_all counts_are_integers (repositories ?self)" by code_simp
  have f: "filter (meets 5 1 1) (repositories ?self)
           = [[(''full_name'', Some ''a/b''), (''stargazers_count'', Some ''12''),
               (''open_issues_count'', Some ''3''), (''topics'', Some ''[ml, data]'')]]"
    by code_simp
  from filter_repositories_selects [of ?self 5 1 1] h
  have "fst (filter_repositories ?self 5 1 1) = Inr (filter (meets 5 1 1) (repositories ?self))"
    by blast
  then show ?thesis using h by (simp only: f)
qed

text \<open>
  A loaded row with an empty \<open>stargazers_count\<close>: \<open>int('')\<close> raises \<open>ValueError\<close>, and
  no list is returned.
\<close>

theorem filter_repositories_selects_counterexample:
  "fst (filter_repositories
      \<lparr>input_file = ''repos.csv'',
       repositories =
         [[(''full_name'', Some ''a/b''), (''stargazers_count'', Some []),
           (''open_issues_count'', Some ''3''), (''topics'', Some ''[ml, data]'')]]\<rparr> 0 0 0) = Inl ValueError"
  by code_simp

end
